theory Spec2Isabelle
  imports Complex_Main "HOL-Library.Multiset"
begin

section \<open>Gesture classifier: the detection loop of App.tsx\<close>

text \<open>
  JavaScript numbers are modelled as mathematical reals (timestamps of \<open>Date.now()\<close> as
  integers): rounding, infinities and NaN are outside the model. A landmark frame is the
  array of points the detector returns for one hand; reading an index past its end and
  then a field of the resulting \<open>undefined\<close> raises TypeError, which is a value here.
\<close>

datatype gesture = OPEN | CLOSED | SWIPE | IDLE | PINCH

datatype js_error = TypeError

type_synonym vec2 = "real \<times> real"
type_synonym vec3 = "real \<times> real \<times> real"

record landmark =
  lx :: real
  ly :: real
  lz :: real

record HandData =
  gesture :: gesture
  position :: vec3
  palmCenter :: vec2
  pointer :: vec2
  rotation :: vec2
  detected :: bool
  pinchDistance :: real

text \<open>The React state \<open>handData\<close> and the two refs the loop reads and writes.\<close>

record trackerState =
  handData :: "HandData option"
  lastPointerRef :: "vec2 option"
  lastTimeRef :: int

definition initialTracker :: trackerState where
  "initialTracker = \<lparr> handData = None, lastPointerRef = None, lastTimeRef = 0 \<rparr>"

text \<open>\<open>Math.atan2\<close> on reals (signed zeros are outside the model).\<close>

definition atan2 :: "real \<Rightarrow> real \<Rightarrow> real" where
  "atan2 b a =
     (if a > 0 then arctan (b / a)
      else if a < 0 \<and> b \<ge> 0 then arctan (b / a) + pi
      else if a < 0 then arctan (b / a) - pi
      else if b > 0 then pi / 2
      else if b < 0 then - (pi / 2)
      else 0)"

text \<open>One iteration of \<open>tips.forEach\<close>: the finger whose tip is \<open>idx\<close> counts as extended.\<close>

definition fingerExtended :: "landmark list \<Rightarrow> nat \<Rightarrow> bool" where
  "fingerExtended landmarks idx \<longleftrightarrow>
     (let wrist = landmarks ! 0;
          tipY = ly (landmarks ! idx);
          pipY = ly (landmarks ! (idx - 2))
      in ly wrist - tipY > 0.1 \<and> pipY - tipY > 0.05)"

definition extendedFingers :: "landmark list \<Rightarrow> nat" where
  "extendedFingers landmarks = length (filter (fingerExtended landmarks) [8, 12, 16, 20])"

definition palmNormalZ :: "landmark list \<Rightarrow> real" where
  "palmNormalZ landmarks =
     (let ax = lx (landmarks ! 5) - lx (landmarks ! 0);
          ay = ly (landmarks ! 5) - ly (landmarks ! 0);
          bx = lx (landmarks ! 17) - lx (landmarks ! 0);
          by = ly (landmarks ! 17) - ly (landmarks ! 0)
      in ax * by - ay * bx)"

definition pinchDistanceOf :: "landmark list \<Rightarrow> real" where
  "pinchDistanceOf landmarks =
     (let thumbTip = landmarks ! 4; indexTip = landmarks ! 8
      in sqrt ((lx thumbTip - lx indexTip) ^ 2 + (ly thumbTip - ly indexTip) ^ 2))"

definition pointerOf :: "landmark list \<Rightarrow> vec2" where
  "pointerOf landmarks = (- (lx (landmarks ! 8) - 0.5) * 2, - (ly (landmarks ! 8) - 0.5) * 2)"

text \<open>
  The velocity of the pointer against the cached sample: 0 unless both refs are truthy
  (a cached pointer, a non-zero time) and time has advanced.
\<close>

definition pointerVelocity :: "trackerState \<Rightarrow> vec2 \<Rightarrow> int \<Rightarrow> real" where
  "pointerVelocity st p now =
     (case lastPointerRef st of
        None \<Rightarrow> 0
      | Some lastPointer \<Rightarrow>
          if lastTimeRef st = 0 then 0
          else
            (let dt = real_of_int (now - lastTimeRef st) / 1000
             in if dt > 0
                then (let dx = fst p - fst lastPointer; dy = snd p - snd lastPointer
                      in sqrt (dx * dx + dy * dy) / dt)
                else 0))"

definition classifyGesture :: "landmark list \<Rightarrow> real \<Rightarrow> nat \<Rightarrow> real \<Rightarrow> real \<Rightarrow> gesture" where
  "classifyGesture landmarks pinchDist extended palmNormal velocity =
     (if pinchDist < 0.08 then PINCH
      else if extended \<ge> 4 then OPEN
      else if extended \<le> 1 \<and> \<bar>palmNormal\<bar> > 0.01 then CLOSED
      else if extended = 1 \<and> velocity > 0.5 then
        (let indexExtended = (ly (landmarks ! 6) - ly (landmarks ! 8) > 0.05)
         in if indexExtended then SWIPE else IDLE)
      else IDLE)"

definition detectedHand :: "trackerState \<Rightarrow> landmark list \<Rightarrow> int \<Rightarrow> HandData" where
  "detectedHand st landmarks now =
     (let p = pointerOf landmarks;
          velocity = pointerVelocity st p now;
          g = classifyGesture landmarks (pinchDistanceOf landmarks)
                (extendedFingers landmarks) (palmNormalZ landmarks) velocity
      in \<lparr> gesture = g,
           position = (- (lx (landmarks ! 9) - 0.5) * 2, - (ly (landmarks ! 9) - 0.5) * 2, 0),
           palmCenter = (- (lx (landmarks ! 9) - 0.5) * 2, - (ly (landmarks ! 9) - 0.5) * 2),
           pointer = p,
           rotation =
             (atan2 (ly (landmarks ! 9) - ly (landmarks ! 0)) (lx (landmarks ! 9) - lx (landmarks ! 0)),
              atan2 (ly (landmarks ! 5) - ly (landmarks ! 17)) (lx (landmarks ! 5) - lx (landmarks ! 17))),
           detected = True,
           pinchDistance = pinchDistanceOf landmarks \<rparr>)"

text \<open>
  The \<open>else\<close> branch of the loop: the functional update
  \<open>prev ? { ...prev, detected: false, gesture: 'IDLE' } : null\<close> and the cleared pointer.
\<close>

definition lostHand :: "trackerState \<Rightarrow> trackerState" where
  "lostHand st =
     st\<lparr> handData :=
           (case handData st of
              Some prev \<Rightarrow> Some (prev\<lparr> detected := False, gesture := IDLE \<rparr>)
            | None \<Rightarrow> None),
         lastPointerRef := None \<rparr>"

text \<open>
  One run of \<open>detectLoop\<close>. \<open>videoReady\<close> is \<open>videoRef.current && readyState >= 2\<close>;
  \<open>result\<close> is the landmark arrays of \<open>detectHands\<close> (\<open>None\<close> for a null result or a
  missing \<open>landmarks\<close> field); \<open>now\<close> is \<open>Date.now()\<close>. The highest index read is 20 and
  it is read in \<open>tips.forEach\<close>, before any ref is written, so a frame of fewer than 21
  points raises with the state untouched.
\<close>

definition detectLoop ::
  "trackerState \<Rightarrow> bool \<Rightarrow> landmark list list option \<Rightarrow> int \<Rightarrow> js_error + trackerState" where
  "detectLoop st videoReady result now =
     (if videoReady then
        (case result of
           Some (landmarks # _) \<Rightarrow>
             if length landmarks < 21 then Inl TypeError
             else Inr (st\<lparr> handData := Some (detectedHand st landmarks now),
                           lastPointerRef := Some (pointerOf landmarks),
                           lastTimeRef := now \<rparr>)
         | _ \<Rightarrow> Inr (lostHand st))
      else Inr st)"

text \<open>A poll finds no hand when the result is null or its landmark array is empty.\<close>

definition noHand :: "landmark list list option \<Rightarrow> bool" where
  "noHand result = (case result of Some (landmarks # _) \<Rightarrow> False | _ \<Rightarrow> True)"

text \<open>Successive animation frames: each is one run of the loop on its own inputs.\<close>

datatype poll = Poll bool "landmark list list option" int

fun runPolls :: "trackerState \<Rightarrow> poll list \<Rightarrow> js_error + trackerState" where
  "runPolls st [] = Inr st"
| "runPolls st (Poll videoReady result now # ps) =
     (case detectLoop st videoReady result now of
        Inl e \<Rightarrow> Inl e
      | Inr st' \<Rightarrow> runPolls st' ps)"

fun pollDetects :: "poll \<Rightarrow> bool" where
  "pollDetects (Poll videoReady result now) = (videoReady \<and> \<not> noHand result)"

text \<open>A frame used to exercise the classifier: all 21 points at the image centre.\<close>

definition frame0 :: "landmark list" where
  "frame0 = replicate 21 \<lparr> lx = 1/2, ly = 1/2, lz = 0 \<rparr>"

fun pollLost :: "poll \<Rightarrow> bool" where
  "pollLost (Poll videoReady result now) = (videoReady \<and> noHand result)"

text \<open>The state after \<open>frame0\<close> has been detected at time 1000 from the initial state.\<close>

definition trackerAfterFrame0 :: trackerState where
  "trackerAfterFrame0 =
     \<lparr> handData = Some (detectedHand initialTracker frame0 1000),
       lastPointerRef = Some (pointerOf frame0),
       lastTimeRef = 1000 \<rparr>"

text \<open>An open hand: the wrist low in the image, four finger tips well above their joints.\<close>

definition pt :: "real \<Rightarrow> real \<Rightarrow> landmark" where
  "pt a b = \<lparr> lx = a, ly = b, lz = 0 \<rparr>"

definition openFrame :: "landmark list" where
  "openFrame =
     [pt 0.5 0.9, pt 0.3 0.8, pt 0.25 0.7, pt 0.2 0.6, pt 0.2 0.5,
      pt 0.4 0.6, pt 0.4 0.4, pt 0.4 0.3, pt 0.5 0.2,
      pt 0.5 0.6, pt 0.5 0.4, pt 0.5 0.3, pt 0.5 0.15,
      pt 0.6 0.6, pt 0.6 0.4, pt 0.6 0.3, pt 0.6 0.2,
      pt 0.7 0.6, pt 0.7 0.45, pt 0.7 0.35, pt 0.7 0.3]"

section \<open>Particle field sampler: processImageToParticles\<close>

text \<open>
  The sampler draws from \<open>Math.random()\<close>. The draws are an input here: \<open>rand k\<close> is the
  value of the \<open>k\<close>-th call, and the cursor \<open>k\<close> is threaded through the loop. The decoded
  image is the byte array of \<open>getImageData\<close> on the 800-wide canvas together with the
  aspect ratio of the loaded image (positive dimensions); the two ways the promise is
  rejected are the other constructors.
\<close>

record ParticleData =
  pX :: real
  pY :: real
  pZ :: real
  pR :: real
  pG :: real
  pB :: real
  originalX :: real
  originalY :: real
  originalZ :: real
  random_p :: real

datatype imageLoad = LoadFailed | NoContext | Loaded real "nat list"

datatype sampler_error = ImageError | CanvasContextError

text \<open>\<open>data[i]\<close> on the byte array: \<open>undefined\<close> outside it.\<close>

definition byteAt :: "nat list \<Rightarrow> int \<Rightarrow> nat option" where
  "byteAt data i = (if 0 \<le> i \<and> nat i < length data then Some (data ! nat i) else None)"

text \<open>
  A colour channel \<open>data[i] / 255\<close>. It is only read below an in-range alpha byte at
  \<open>i + 3\<close> with \<open>i\<close> a non-negative multiple of 4, so the \<open>None\<close> case is never taken.
\<close>

definition channel :: "nat list \<Rightarrow> int \<Rightarrow> real" where
  "channel data i = (case byteAt data i of Some v \<Rightarrow> real v / 255 | None \<Rightarrow> 0)"

text \<open>
  One pass through the body of the \<open>while\<close> loop, from cursor \<open>k\<close>: the particle pushed,
  if any, and the cursor after the draws this pass consumed.
\<close>

definition sampleStep :: "real \<Rightarrow> nat list \<Rightarrow> (nat \<Rightarrow> real) \<Rightarrow> nat \<Rightarrow> ParticleData option \<times> nat" where
  "sampleStep aspectRatio data rand k =
     (let width = 800 :: real;
          height = width / aspectRatio;
          rx = \<lfloor>rand k * width\<rfloor>;
          ry = \<lfloor>rand (k + 1) * height\<rfloor>;
          nx = (real_of_int rx / width) * 2 - 1;
          ny = (real_of_int ry / height) * 2 - 1;
          distFromCenter = sqrt (nx * nx + ny * ny);
          falloff = (rand (k + 2) < distFromCenter powr 1.5)
      in if falloff \<and> rand (k + 3) > 0.15 then (None, k + 4)
         else
           (let k' = (if falloff then k + 4 else k + 3);
                i = (ry * 800 + rx) * 4
            in case byteAt data (i + 3) of
                 None \<Rightarrow> (None, k')
               | Some alpha \<Rightarrow>
                   if alpha > 20 then
                     (let r = channel data i;
                          g = channel data (i + 1);
                          b = channel data (i + 2);
                          luminance = 0.21 * r + 0.72 * g + 0.07 * b;
                          zDepth = (luminance - 0.5) * 2.5;
                          finalX = (real_of_int rx / width - 0.5) * 10 * aspectRatio;
                          finalY = - (real_of_int ry / height - 0.5) * 10
                      in (Some \<lparr> pX = finalX, pY = finalY, pZ = zDepth,
                                  pR = r, pG = g, pB = b,
                                  originalX = finalX, originalY = finalY, originalZ = zDepth,
                                  random_p = rand k' \<rparr>,
                          k' + 1))
                   else (None, k')))"

text \<open>
  The \<open>while\<close> loop: it runs while fewer than \<open>targetCount\<close> particles are collected and
  fewer than \<open>targetCount * 200\<close> attempts were made, and returns the particles, the
  attempts made and the cursor.
\<close>

function sampleLoop ::
  "real \<Rightarrow> nat list \<Rightarrow> int \<Rightarrow> (nat \<Rightarrow> real) \<Rightarrow> ParticleData list \<Rightarrow> int \<Rightarrow> nat
     \<Rightarrow> ParticleData list \<times> int \<times> nat" where
  "sampleLoop aspectRatio data targetCount rand particles attempts k =
     (if int (length particles) < targetCount \<and> attempts < targetCount * 200 then
        (case sampleStep aspectRatio data rand k of
           (None, k') \<Rightarrow> sampleLoop aspectRatio data targetCount rand particles (attempts + 1) k'
         | (Some p, k') \<Rightarrow>
             sampleLoop aspectRatio data targetCount rand (particles @ [p]) (attempts + 1) k')
      else (particles, attempts, k))"
  by pat_completeness auto
termination
  by (relation "measure (\<lambda>(aspectRatio, data, targetCount, rand, particles, attempts, k).
                    nat (targetCount * 200 - attempts))") auto

declare sampleLoop.simps [simp del]

definition fallbackParticle :: ParticleData where
  "fallbackParticle =
     \<lparr> pX = 0, pY = 0, pZ = 0, pR = 1, pG = 1, pB = 1,
       originalX = 0, originalY = 0, originalZ = 0, random_p = 0 \<rparr>"

text \<open>The particles the loop accepted and the attempts it used, from an empty array.\<close>

definition acceptedParticles :: "real \<Rightarrow> nat list \<Rightarrow> int \<Rightarrow> (nat \<Rightarrow> real) \<Rightarrow> ParticleData list" where
  "acceptedParticles aspectRatio data targetCount rand =
     fst (sampleLoop aspectRatio data targetCount rand [] 0 0)"

definition attemptsUsed :: "real \<Rightarrow> nat list \<Rightarrow> int \<Rightarrow> (nat \<Rightarrow> real) \<Rightarrow> int" where
  "attemptsUsed aspectRatio data targetCount rand =
     fst (snd (sampleLoop aspectRatio data targetCount rand [] 0 0))"

definition processImageToParticles ::
  "imageLoad \<Rightarrow> int \<Rightarrow> (nat \<Rightarrow> real) \<Rightarrow> sampler_error + ParticleData list" where
  "processImageToParticles load targetCount rand =
     (case load of
        LoadFailed \<Rightarrow> Inl ImageError
      | NoContext \<Rightarrow> Inl CanvasContextError
      | Loaded aspectRatio data \<Rightarrow>
          (let particles = acceptedParticles aspectRatio data targetCount rand
           in Inr (if length particles = 0 then particles @ [fallbackParticle] else particles)))"

text \<open>One opaque white pixel at the top-left corner, and a random source that always draws 0.\<close>

definition whiteCorner :: "nat list" where
  "whiteCorner = [255, 255, 255, 255]"

section \<open>Text glyph particles: TextParticleSystem\<close>

text \<open>
  A JavaScript string is its sequence of UTF-16 code units; \<open>js\<close> embeds a literal.
  Particle objects are shared between the React state array and the physics map, and the
  physics loop mutates them in place, so they live in an explicit store: \<open>objs\<close> holds
  every particle object ever created, an object's address is its index, and the array and
  the map hold addresses. Identifiers come from \<open>Math.random()\<close> and \<open>Date.now()\<close>; the
  identifier of the \<open>i\<close>-th glyph of a batch is the input \<open>ids i\<close>.
\<close>

type_synonym jsString = "nat list"

definition js :: "string \<Rightarrow> jsString" where
  "js s = map of_char s"

datatype phase = Spawn | Hold | Fly | Dock

record TextParticle =
  id_p :: jsString
  char_p :: jsString
  position_p :: vec3
  velocity_p :: vec3
  rotation_p :: vec3
  phase :: phase
  spawnTime :: int
  morphTime :: int
  flyStartTime :: int
  delay :: int
  holdPosition :: vec3
  dockPosition :: vec3
  controlPoint :: vec3
  color :: jsString

record textSystem =
  objs :: "TextParticle list"
  particles :: "nat list"
  physicsStateRef :: "(jsString \<times> nat) list"
  textRefs :: "jsString list"
  lastTranscriptRef :: jsString
  lastSceneVersionRef :: int
  totalCharCountRef :: nat
  initialSpawnRef :: bool

text \<open>The component as first mounted with scene version \<open>v\<close>.\<close>

definition initialText :: "int \<Rightarrow> textSystem" where
  "initialText v =
     \<lparr> objs = [], particles = [], physicsStateRef = [], textRefs = [],
       lastTranscriptRef = [], lastSceneVersionRef = v, totalCharCountRef = 0,
       initialSpawnRef = False \<rparr>"

definition MAX_CHARS :: nat where
  "MAX_CHARS = 500"

definition ORBIT_Z :: real where
  "ORBIT_Z = 2.5"

definition CHARS_PER_RING :: nat where
  "CHARS_PER_RING = 50"

text \<open>\<open>s.startsWith(w)\<close> and \<open>Map.prototype.set\<close> on a map kept in insertion order.\<close>

definition startsWith :: "jsString \<Rightarrow> jsString \<Rightarrow> bool" where
  "startsWith s w = (take (length w) s = w)"

fun mapSet :: "'k \<Rightarrow> 'v \<Rightarrow> ('k \<times> 'v) list \<Rightarrow> ('k \<times> 'v) list" where
  "mapSet k v [] = [(k, v)]"
| "mapSet k v ((k', v') # m) = (if k' = k then (k, v) # m else (k', v') # mapSet k v m)"

subsection \<open>The spawn effect\<close>

text \<open>The object built for the \<open>i\<close>-th character \<open>c\<close> of a batch of \<open>n\<close> characters.\<close>

definition newParticle ::
  "bool \<Rightarrow> nat \<Rightarrow> nat \<Rightarrow> int \<Rightarrow> (nat \<Rightarrow> jsString) \<Rightarrow> nat \<Rightarrow> nat \<Rightarrow> TextParticle" where
  "newParticle isRestoring totalCharCount n now ids i c =
     (let charWidth = 0.4 :: real;
          totalWidth = real n * charWidth;
          startX = - (totalWidth / 2);
          holdDuration = 3500 :: int;
          holdX = startX + real i * charWidth;
          holdY = - 3.0 :: real;
          holdZ = 0 :: real;
          globalIndex = (if isRestoring then i else totalCharCount + i);
          ringIndex = globalIndex div CHARS_PER_RING;
          localIndex = globalIndex mod CHARS_PER_RING;
          radius = 4.3 :: real;
          angleStep = (pi * 2) / real CHARS_PER_RING;
          theta = real localIndex * angleStep;
          baseX = cos theta * radius;
          baseY = sin theta * radius;
          baseZ = 0 :: real;
          ringRotationY = real ringIndex * (pi / 6);
          x1 = baseX * cos ringRotationY - baseZ * sin ringRotationY;
          z1 = baseX * sin ringRotationY + baseZ * cos ringRotationY;
          y1 = baseY;
          dockX = x1;
          dockY = y1;
          dockZ = z1 + ORBIT_Z;
          ctrlX = dockX * 1.5;
          ctrlY = dockY + 5.0;
          ctrlZ = 5.0 :: real
      in \<lparr> id_p = ids i,
           char_p = [c],
           position_p = (holdX, holdY - 2.0, holdZ),
           velocity_p = (0, 0, 0),
           rotation_p = (0, 0, 0),
           phase = Spawn,
           spawnTime = now,
           morphTime = now + holdDuration,
           flyStartTime = 0,
           delay = int i * 80,
           holdPosition = (holdX, holdY, holdZ),
           dockPosition = (dockX, dockY, dockZ),
           controlPoint = (ctrlX, ctrlY, ctrlZ),
           color = js ''#FFFFFF'' \<rparr>)"

definition newParticleObjs ::
  "bool \<Rightarrow> nat \<Rightarrow> int \<Rightarrow> (nat \<Rightarrow> jsString) \<Rightarrow> jsString \<Rightarrow> TextParticle list" where
  "newParticleObjs isRestoring totalCharCount now ids newPart =
     map (\<lambda>(i, c). newParticle isRestoring totalCharCount (length newPart) now ids i c)
       (enumerate 0 newPart)"

text \<open>Which part of the transcript is new.\<close>

definition newPartOf :: "bool \<Rightarrow> bool \<Rightarrow> jsString \<Rightarrow> jsString \<Rightarrow> jsString" where
  "newPartOf isRestoring isReset previousText currentText =
     (if isRestoring then currentText
      else if startsWith currentText previousText \<and> \<not> isReset
           then drop (length previousText) currentText
      else currentText)"

text \<open>
  The updater passed to \<open>setParticles\<close>, applied at once: the new addresses are appended, and past
  \<open>MAX_CHARS\<close> only the last \<open>MAX_CHARS\<close> are kept; every physics entry whose identifier is not
  kept is deleted, with its render handle.
\<close>

definition capParticles :: "textSystem \<Rightarrow> nat list \<Rightarrow> textSystem" where
  "capParticles st newAddrs =
     (let combined = particles st @ newAddrs
      in if length combined > MAX_CHARS then
           (let keep = drop (length combined - MAX_CHARS) combined;
                keepIds = map (\<lambda>a. id_p (objs st ! a)) keep;
                evicted = filter (\<lambda>i. i \<notin> set keepIds) (map fst (physicsStateRef st))
            in st\<lparr> particles := keep,
                   physicsStateRef := filter (\<lambda>(i, a). i \<in> set keepIds) (physicsStateRef st),
                   textRefs := filter (\<lambda>i. i \<notin> set evicted) (textRefs st) \<rparr>)
         else st\<lparr> particles := combined \<rparr>)"

text \<open>The body of \<open>if (newPart.length > 0)\<close>: create the batch, count it, register it, cap.\<close>

definition spawnGlyphs ::
  "textSystem \<Rightarrow> bool \<Rightarrow> jsString \<Rightarrow> int \<Rightarrow> (nat \<Rightarrow> jsString) \<Rightarrow> textSystem" where
  "spawnGlyphs st isRestoring newPart now ids =
     (let created = newParticleObjs isRestoring (totalCharCountRef st) now ids newPart;
          newAddrs = [length (objs st) ..< length (objs st) + length created];
          st1 = st\<lparr> objs := objs st @ created,
                    totalCharCountRef :=
                      (if isRestoring then length newPart
                       else totalCharCountRef st + length newPart) \<rparr>;
          st2 = st1\<lparr> physicsStateRef :=
                      fold (\<lambda>a m. mapSet (id_p (objs st1 ! a)) a m) newAddrs (physicsStateRef st1) \<rparr>
      in capParticles st2 newAddrs)"

text \<open>The effect that runs when \<open>transcript\<close> or \<open>sceneVersion\<close> changes.\<close>

definition useEffectSpawn ::
  "textSystem \<Rightarrow> jsString \<Rightarrow> int \<Rightarrow> int \<Rightarrow> (nat \<Rightarrow> jsString) \<Rightarrow> textSystem" where
  "useEffectSpawn st transcript sceneVersion now ids =
     (let isReset = (sceneVersion \<noteq> lastSceneVersionRef st);
          isRestoring = (isReset \<and> transcript \<noteq> []);
          st1 = (if isReset \<and> \<not> isRestoring
                 then st\<lparr> particles := [], physicsStateRef := [], textRefs := [],
                          lastTranscriptRef := [], totalCharCountRef := 0,
                          initialSpawnRef := False, lastSceneVersionRef := sceneVersion \<rparr>
                 else st)
      in if transcript = [] then st1
         else
           (let st2 = (if isRestoring \<and> \<not> initialSpawnRef st1
                       then st1\<lparr> lastTranscriptRef := [], initialSpawnRef := True \<rparr>
                       else st1);
                currentText = transcript;
                previousText = lastTranscriptRef st2;
                newPart = newPartOf isRestoring isReset previousText currentText;
                st3 = (if length newPart > 0 then spawnGlyphs st2 isRestoring newPart now ids
                       else st2)
            in st3\<lparr> lastTranscriptRef := currentText,
                    lastSceneVersionRef :=
                      (if isReset then sceneVersion else lastSceneVersionRef st3) \<rparr>))"

text \<open>
  A render commit: the inline \<open>ref\<close> callbacks leave a render handle for exactly the
  particles in the state array.
\<close>

definition commitRender :: "textSystem \<Rightarrow> textSystem" where
  "commitRender st = st\<lparr> textRefs := remdups (map (\<lambda>a. id_p (objs st ! a)) (particles st)) \<rparr>"

subsection \<open>The physics loop\<close>

definition easeToward :: "vec3 \<Rightarrow> vec3 \<Rightarrow> real \<Rightarrow> vec3" where
  "easeToward pos target lerpFactor =
     (case (pos, target) of
        ((px, py, pz), (tx, ty, tz)) \<Rightarrow>
          (px + (tx - px) * lerpFactor, py + (ty - py) * lerpFactor, pz + (tz - pz) * lerpFactor))"

definition bezier :: "real \<Rightarrow> vec3 \<Rightarrow> vec3 \<Rightarrow> vec3 \<Rightarrow> vec3" where
  "bezier t hold cp dock =
     (case (hold, cp, dock) of
        ((hx, hy, hz), (cx, cy, cz), (dx, dy, dz)) \<Rightarrow>
          (let invT = 1 - t
           in ((invT * invT * hx) + (2 * invT * t * cx) + (t * t * dx),
               (invT * invT * hy) + (2 * invT * t * cy) + (t * t * dy),
               (invT * invT * hz) + (2 * invT * t * cz) + (t * t * dz))))"

text \<open>
  The target of a docked glyph: its ring position revolved with time and bobbed, then
  pushed by the gesture of a detected hand. Where the source divides 0 by 0 (a glyph
  exactly under the pointer) JavaScript yields NaN and this model 0.
\<close>

definition dockTarget :: "HandData option \<Rightarrow> real \<Rightarrow> TextParticle \<Rightarrow> vec3" where
  "dockTarget hand time p =
     (case (dockPosition p, position_p p) of
        ((dockX, dockY, dockZ), (posX, posY, posZ)) \<Rightarrow>
          (let angle = time * 0.1;
               cosA = cos angle;
               sinA = sin angle;
               rotX = dockX * cosA - dockY * sinA;
               rotY = dockX * sinA + dockY * cosA;
               tx = rotX;
               ty = rotY;
               tz = dockZ + sin (time + posX) * 0.2
           in case hand of
                None \<Rightarrow> (tx, ty, tz)
              | Some h \<Rightarrow>
                  if \<not> detected h then (tx, ty, tz)
                  else if gesture h = OPEN then
                    (let dist = sqrt (tx * tx + ty * ty);
                         d = (if dist = 0 then 1 else dist)
                     in (tx + (tx / d) * 8.0, ty + (ty / d) * 8.0, tz + 5.0))
                  else if gesture h = SWIPE then
                    (let ptrX = fst (pointer h) * 12;
                         ptrY = snd (pointer h) * 8;
                         dx = posX - ptrX;
                         dy = posY - ptrY;
                         dist = sqrt (dx * dx + dy * dy)
                     in if dist < 3.5
                        then (let force = (1.0 - dist / 3.5) * 6.0
                              in (tx + (dx / dist) * force, ty + (dy / dist) * force, tz))
                        else (tx, ty, tz))
                  else if gesture h = CLOSED then (dockX * 0.5, dockY * 0.5, tz)
                  else (tx, ty, tz)))"

text \<open>
  The body of \<open>physicsStateRef.current.forEach\<close> for one particle that has a render
  handle. The render handle itself (mesh position and scale) is not part of the model.
  No branch of the source matches the phase \<open>'hold'\<close> of the type, which nothing assigns.
\<close>

definition stepParticle :: "HandData option \<Rightarrow> int \<Rightarrow> real \<Rightarrow> real \<Rightarrow> TextParticle \<Rightarrow> TextParticle" where
  "stepParticle hand now time safeDelta p =
     (case phase p of
        Spawn \<Rightarrow>
          (let lerpFactor = 3.0 * safeDelta;
               p1 = p\<lparr> position_p := easeToward (position_p p) (holdPosition p) lerpFactor \<rparr>
           in if now \<ge> morphTime p1
              then p1\<lparr> phase := Fly, flyStartTime := now + delay p1 \<rparr>
              else p1)
      | Fly \<Rightarrow>
          (let duration = 2500 :: real;
               elapsed = now - flyStartTime p;
               progress = max 0 (min 1 (real_of_int elapsed / duration))
           in if progress \<ge> 1 \<or> elapsed > 4000
              then p\<lparr> phase := Dock \<rparr>
              else p\<lparr> position_p := bezier progress (holdPosition p) (controlPoint p) (dockPosition p) \<rparr>)
      | Dock \<Rightarrow>
          (let lerpFactor = (case hand of
                               Some h \<Rightarrow> if gesture h = CLOSED then 0.2 else 0.05
                             | None \<Rightarrow> 0.05)
           in p\<lparr> position_p := easeToward (position_p p) (dockTarget hand time p) lerpFactor \<rparr>)
      | Hold \<Rightarrow> p)"

text \<open>
  One callback of \<open>forEach\<close>: the entry \<open>(i, a)\<close> of the physics map is skipped when
  the identifier has no render handle, and its object is stepped in place otherwise.
\<close>

definition stepEntry ::
  "jsString list \<Rightarrow> HandData option \<Rightarrow> int \<Rightarrow> real \<Rightarrow> real \<Rightarrow> jsString \<times> nat
     \<Rightarrow> TextParticle list \<Rightarrow> TextParticle list" where
  "stepEntry refs hand now time safeDelta entry os =
     (case entry of
        (i, a) \<Rightarrow>
          if i \<in> set refs then os[a := stepParticle hand now time safeDelta (os ! a)] else os)"

text \<open>
  One frame of the physics loop: nothing in reading mode; otherwise every physics entry is
  visited in the order of the map.
\<close>

definition useFrameText ::
  "textSystem \<Rightarrow> bool \<Rightarrow> HandData option \<Rightarrow> int \<Rightarrow> real \<Rightarrow> real \<Rightarrow> textSystem" where
  "useFrameText st readingMode hand now time delta =
     (if readingMode then st
      else
        (let safeDelta = min delta 0.1
         in st\<lparr> objs := fold (stepEntry (textRefs st) hand now time safeDelta)
                            (physicsStateRef st) (objs st) \<rparr>))"

text \<open>What can happen to the component, and a run of such events.\<close>

datatype textEvent =
    Frame bool "HandData option" int real real
  | TranscriptChange jsString int int "nat \<Rightarrow> jsString"
  | Commit

fun textStep :: "textSystem \<Rightarrow> textEvent \<Rightarrow> textSystem" where
  "textStep st (Frame readingMode hand now time delta) = useFrameText st readingMode hand now time delta"
| "textStep st (TranscriptChange transcript sceneVersion now ids) =
     useEffectSpawn st transcript sceneVersion now ids"
| "textStep st Commit = commitRender st"

definition runText :: "textSystem \<Rightarrow> textEvent list \<Rightarrow> textSystem" where
  "runText st evs = fold (\<lambda>ev s. textStep s ev) evs st"

definition phaseRank :: "phase \<Rightarrow> nat" where
  "phaseRank ph = (case ph of Spawn \<Rightarrow> 0 | Hold \<Rightarrow> 1 | Fly \<Rightarrow> 2 | Dock \<Rightarrow> 3)"

text \<open>
  Runs used to exercise the model: identifiers that are just the glyph's index, the word
  HI spawned at time 1000 and rendered, then two frames that take its first glyph to the
  dock while the second is still flying; and the transcript HELLO spawned on its own.
\<close>

definition unitIds :: "nat \<Rightarrow> jsString" where
  "unitIds i = [i]"

definition hiSpawned :: textSystem where
  "hiSpawned = runText (initialText 0) [TranscriptChange (js ''HI'') 0 1000 unitIds, Commit]"

definition hiDocked :: textSystem where
  "hiDocked = runText hiSpawned [Frame False None 4500 3.5 0.016, Frame False None 7050 6.05 0.016]"

definition openHand :: HandData where
  "openHand = (detectedHand initialTracker frame0 1000)\<lparr> gesture := OPEN \<rparr>"

definition helloSpawned :: textSystem where
  "helloSpawned = useEffectSpawn (initialText 0) (js ''HELLO'') 0 1000 unitIds"

text \<open>The last \<open>MAX_CHARS\<close> entries of an array, all of it when it is shorter.\<close>

definition lastMaxChars :: "'a list \<Rightarrow> 'a list" where
  "lastMaxChars xs = drop (length xs - MAX_CHARS) xs"

section \<open>Memory search: processedMemories of App.tsx\<close>

text \<open>
  \<open>String.prototype.toLowerCase\<close> is a Unicode table of the platform; the search takes it
  as the parameter \<open>lower\<close>, and \<open>asciiLower\<close> (the letters A to Z) stands in for it in
  concrete runs.
\<close>

datatype Sentiment = POSITIVE | NEGATIVE | NEUTRAL

text \<open>The string value of each member of the enum.\<close>

definition sentimentLabel :: "Sentiment \<Rightarrow> jsString" where
  "sentimentLabel s =
     (case s of POSITIVE \<Rightarrow> js ''positive'' | NEGATIVE \<Rightarrow> js ''negative'' | NEUTRAL \<Rightarrow> js ''neutral'')"

record VoiceMemory =
  id_v :: jsString
  transcript_v :: jsString
  sentiment_v :: Sentiment
  timestamp_v :: int

record MemoryPackage =
  id_m :: jsString
  timestamp :: int
  thumbnail :: jsString
  imageSnapshot :: jsString
  particleCount :: int
  sentiment :: Sentiment
  transcriptSnapshot :: jsString
  dominantColor :: jsString
  palette :: "jsString list"
  matchScore :: "real option"
  voiceMemories :: "VoiceMemory list"

datatype viewMode = LIVE | PALACE

definition asciiLower :: "jsString \<Rightarrow> jsString" where
  "asciiLower s = map (\<lambda>c. if 65 \<le> c \<and> c \<le> 90 then c + 32 else c) s"

text \<open>The stop words, as code units (18 English words, 19 Chinese ones).\<close>

definition STOP_WORDS :: "jsString list" where
  "STOP_WORDS =
     [js ''the'', js ''is'', js ''at'', js ''which'', js ''on'', js ''a'', js ''an'', js ''and'',
      js ''or'', js ''but'', js ''if'', js ''then'', js ''else'', js ''when'', js ''in'', js ''to'',
      js ''for'', js ''of'',
      [30340], [20102], [21644], [26159], [23601], [37117], [32780], [21450], [19982], [30528],
      [25110], [19968, 20010], [27809, 26377], [25105, 20204], [20320, 20204], [20182, 20204],
      [36825, 20010], [37027, 20010], [22312]]"

text \<open>The characters the regular expression \<open>[.,\/#!$%\^&\*;:{}=\-_`~()]\<close> removes.\<close>

definition punctuation :: "nat list" where
  "punctuation =
     [46, 44, 47, 35, 33, 36, 37, 94, 38, 42, 59, 58, 123, 125, 61, 45, 95, 96, 126, 40, 41]"

text \<open>White space as \<open>\s\<close> and \<open>trim()\<close> see it.\<close>

definition isWhitespace :: "nat \<Rightarrow> bool" where
  "isWhitespace c \<longleftrightarrow>
     c \<in> set [9, 10, 11, 12, 13, 32, 160, 5760, 8232, 8233, 8239, 8287, 12288, 65279]
     \<or> (8192 \<le> c \<and> c \<le> 8202)"

text \<open>\<open>s.split(/\s+/)\<close>: the pieces between maximal runs of white space, empty at an end
  of the string that is white space, and the one empty piece for the empty string.\<close>

fun splitWhitespace :: "jsString \<Rightarrow> jsString list" where
  "splitWhitespace [] = [[]]"
| "splitWhitespace (c # cs) =
     (if isWhitespace c then
        (if cs \<noteq> [] \<and> isWhitespace (hd cs) then splitWhitespace cs else [] # splitWhitespace cs)
      else
        (case splitWhitespace cs of
           w # ws \<Rightarrow> (c # w) # ws
         | [] \<Rightarrow> [[c]]))"

text \<open>\<open>content.includes(word)\<close>: \<open>word\<close> occurs in \<open>content\<close> as a substring.\<close>

fun includes_s :: "jsString \<Rightarrow> jsString \<Rightarrow> bool" where
  "includes_s [] word = (word = [])"
| "includes_s (c # cs) word = (startsWith (c # cs) word \<or> includes_s cs word)"

text \<open>\<open>[...new Set(keywords)]\<close>: each keyword once, in the order of first occurrence.\<close>

definition dedupe :: "jsString list \<Rightarrow> jsString list" where
  "dedupe ks = rev (remdups (rev ks))"

definition normalizeQuery :: "(jsString \<Rightarrow> jsString) \<Rightarrow> jsString \<Rightarrow> jsString" where
  "normalizeQuery lower searchQuery = filter (\<lambda>c. c \<notin> set punctuation) (lower searchQuery)"

definition hasChinese :: "jsString \<Rightarrow> bool" where
  "hasChinese q = list_ex (\<lambda>c. 19968 \<le> c \<and> c \<le> 40869) q"

text \<open>Step 1 of the search: the keywords of a query.\<close>

definition keywordsOf :: "(jsString \<Rightarrow> jsString) \<Rightarrow> jsString \<Rightarrow> jsString list" where
  "keywordsOf lower searchQuery =
     (let normalizedQuery = normalizeQuery lower searchQuery
      in dedupe
           (if hasChinese normalizedQuery then
              (let singles = map (\<lambda>c. [c])
                               (filter (\<lambda>c. \<not> isWhitespace c \<and> [c] \<notin> set STOP_WORDS) normalizedQuery);
                   bigrams = filter (\<lambda>b. b \<notin> set STOP_WORDS)
                               (map (\<lambda>i. take 2 (drop i normalizedQuery))
                                  [0 ..< length normalizedQuery - 1]);
                   splitParts = filter (\<lambda>w. length w > 0 \<and> w \<notin> set STOP_WORDS)
                                  (splitWhitespace normalizedQuery)
               in singles @ bigrams @ splitParts)
            else filter (\<lambda>w. length w > 0 \<and> w \<notin> set STOP_WORDS) (splitWhitespace normalizedQuery)))"

text \<open>Step 2: the hits and the score of one memory.\<close>

definition contentOf :: "(jsString \<Rightarrow> jsString) \<Rightarrow> MemoryPackage \<Rightarrow> jsString" where
  "contentOf lower memory = lower (transcriptSnapshot memory @ js '' '' @ sentimentLabel (sentiment memory))"

definition hitsOf :: "(jsString \<Rightarrow> jsString) \<Rightarrow> jsString list \<Rightarrow> MemoryPackage \<Rightarrow> nat" where
  "hitsOf lower keywords memory = length (filter (includes_s (contentOf lower memory)) keywords)"

definition scoreOf :: "(jsString \<Rightarrow> jsString) \<Rightarrow> jsString list \<Rightarrow> MemoryPackage \<Rightarrow> real" where
  "scoreOf lower keywords memory =
     (let hits = hitsOf lower keywords memory
      in if hits > 0
         then min (real hits / max 1 (real (length keywords) * 0.5)) 1.0
         else 0)"

text \<open>
  \<open>Array.prototype.sort\<close> with a comparator. The language fixes the result for a
  consistent comparator: sorted, and stable. Both comparators below are consistent, and
  the stable insertion sort computes that result.
\<close>

fun insertBy :: "('a \<Rightarrow> 'a \<Rightarrow> real) \<Rightarrow> 'a \<Rightarrow> 'a list \<Rightarrow> 'a list" where
  "insertBy cmp a [] = [a]"
| "insertBy cmp a (b # bs) = (if cmp a b \<le> 0 then a # b # bs else b # insertBy cmp a bs)"

definition sortJs :: "('a \<Rightarrow> 'a \<Rightarrow> real) \<Rightarrow> 'a list \<Rightarrow> 'a list" where
  "sortJs cmp xs = foldr (insertBy cmp) xs []"

text \<open>\<open>m.matchScore || 0\<close>, and the two comparators.\<close>

definition scoreOr0 :: "MemoryPackage \<Rightarrow> real" where
  "scoreOr0 m = (case matchScore m of None \<Rightarrow> 0 | Some s \<Rightarrow> s)"

definition byRecency :: "MemoryPackage \<Rightarrow> MemoryPackage \<Rightarrow> real" where
  "byRecency a b = real_of_int (timestamp b - timestamp a)"

definition byScore :: "MemoryPackage \<Rightarrow> MemoryPackage \<Rightarrow> real" where
  "byScore a b =
     (if scoreOr0 b > 0 \<or> scoreOr0 a > 0 then scoreOr0 b - scoreOr0 a
      else real_of_int (timestamp b - timestamp a))"

definition searchQueryOf :: "jsString \<Rightarrow> jsString \<Rightarrow> jsString" where
  "searchQueryOf transcript finalizedTranscript =
     (if transcript \<noteq> [] then transcript else finalizedTranscript)"

definition processedMemories ::
  "(jsString \<Rightarrow> jsString) \<Rightarrow> viewMode \<Rightarrow> jsString \<Rightarrow> jsString \<Rightarrow> MemoryPackage list
     \<Rightarrow> MemoryPackage list" where
  "processedMemories lower mode transcript finalizedTranscript savedMemories =
     (let searchQuery = searchQueryOf transcript finalizedTranscript
      in if mode = LIVE \<or> searchQuery = []
         then sortJs byRecency (map (\<lambda>m. m\<lparr> matchScore := Some 0 \<rparr>) savedMemories)
         else
           (let keywords = keywordsOf lower searchQuery
            in if length keywords = 0
               then sortJs byRecency (map (\<lambda>m. m\<lparr> matchScore := Some 0 \<rparr>) savedMemories)
               else
                 (let scoredMemories =
                        map (\<lambda>memory. memory\<lparr> matchScore := Some (scoreOf lower keywords memory) \<rparr>)
                          savedMemories
                  in sortJs byScore scoredMemories)))"

text \<open>
  Following the specification's words: the score as the ramp
  \<open>min(1, hits / max(1, 0.5 * keywordCount))\<close>, and the candidate tokens of a query
  before any stop word is removed (a query is all stop words when each of them is one).
\<close>

definition rampScore :: "nat \<Rightarrow> nat \<Rightarrow> real" where
  "rampScore hits keywordCount = min 1 (real hits / max 1 (0.5 * real keywordCount))"

definition candidateTokens :: "(jsString \<Rightarrow> jsString) \<Rightarrow> jsString \<Rightarrow> jsString list" where
  "candidateTokens lower searchQuery =
     (let q = normalizeQuery lower searchQuery
      in if hasChinese q
         then map (\<lambda>c. [c]) (filter (\<lambda>c. \<not> isWhitespace c) q)
              @ map (\<lambda>i. take 2 (drop i q)) [0 ..< length q - 1]
              @ filter (\<lambda>w. length w > 0) (splitWhitespace q)
         else filter (\<lambda>w. length w > 0) (splitWhitespace q))"

text \<open>Three saved memories, newest first as \<open>handleSaveMemory\<close> stores them.\<close>

definition memoryOf :: "int \<Rightarrow> jsString \<Rightarrow> MemoryPackage" where
  "memoryOf t snapshot =
     \<lparr> id_m = [], timestamp = t, thumbnail = [], imageSnapshot = [], particleCount = 10000,
       sentiment = NEUTRAL, transcriptSnapshot = snapshot, dominantColor = [], palette = [],
       matchScore = Some 0, voiceMemories = [] \<rparr>"

definition threeMemories :: "MemoryPackage list" where
  "threeMemories =
     [memoryOf 3 (js ''Nothing''), memoryOf 2 (js ''The big cat''), memoryOf 1 (js ''Hello World'')]"

section \<open>Ambient cloud: the frame callback of ParticleScene\<close>

text \<open>
  The uniforms of the shader material and the transform of the point mesh that the
  callback reads and writes. \<open>THREE.MathUtils.lerp(x, y, t)\<close> is \<open>(1 - t) * x + t * y\<close>.
\<close>

record sceneState =
  uTime :: real
  uSize :: real
  uDisruption :: real
  uPointer :: vec2
  uSwipeActive :: real
  uReadingMode :: real
  meshPosition :: vec2
  meshRotation :: vec2

definition lerp :: "real \<Rightarrow> real \<Rightarrow> real \<Rightarrow> real" where
  "lerp a b t = (1 - t) * a + t * b"

text \<open>The hand that drives the scene: present, detected, and not in reading mode.\<close>

definition activeHand :: "HandData option \<Rightarrow> bool \<Rightarrow> HandData option" where
  "activeHand hand readingMode =
     (case hand of
        None \<Rightarrow> None
      | Some h \<Rightarrow> if detected h \<and> \<not> readingMode then Some h else None)"

text \<open>
  The value of \<open>disruptionTarget\<close> at the end of the interaction logic. The sentiment
  override is assigned first, and both branches of the hand test assign again.
\<close>

definition disruptionTargetOf :: "Sentiment \<Rightarrow> HandData option \<Rightarrow> bool \<Rightarrow> real" where
  "disruptionTargetOf sent hand readingMode =
     (let overridden = (if sent = NEGATIVE then 1.5 else 0 :: real)
      in case activeHand hand readingMode of
           Some h \<Rightarrow>
             (if gesture h = OPEN then 2.5
              else if gesture h = CLOSED then 0.0
              else if gesture h = SWIPE then 0.0
              else 0.2)
         | None \<Rightarrow> 0)"

text \<open>The transition physics: the interpolation rate of this frame.\<close>

definition disruptionLerpSpeed :: "real \<Rightarrow> real \<Rightarrow> real" where
  "disruptionLerpSpeed disruptionTarget currentDisruption =
     (if disruptionTarget > currentDisruption then 0.03 else 0.15)"

text \<open>The pan and rotate of the mesh: towards the hand at rate 0.1, back to the centre at 0.05.\<close>

definition meshTransform :: "sceneState \<Rightarrow> HandData option \<Rightarrow> vec2 \<times> vec2" where
  "meshTransform st active =
     (case active of
        Some h \<Rightarrow>
          (let targetPosX = fst (position h) * 12;
               targetPosY = fst (snd (position h)) * 8;
               targetRotX = snd (rotation h) * 1.5;
               targetRotY = fst (rotation h) * 1.5
           in ((lerp (fst (meshPosition st)) targetPosX 0.1, lerp (snd (meshPosition st)) targetPosY 0.1),
               (lerp (fst (meshRotation st)) targetRotX 0.1, lerp (snd (meshRotation st)) targetRotY 0.1)))
      | None \<Rightarrow>
          ((lerp (fst (meshPosition st)) 0 0.05, lerp (snd (meshPosition st)) 0 0.05),
           (lerp (fst (meshRotation st)) 0 0.05, lerp (snd (meshRotation st)) 0 0.05)))"

definition useFrameScene ::
  "sceneState \<Rightarrow> bool \<Rightarrow> real \<Rightarrow> real \<Rightarrow> Sentiment \<Rightarrow> HandData option \<Rightarrow> bool \<Rightarrow> sceneState" where
  "useFrameScene st meshPresent elapsed pointSize sent hand readingMode =
     (if \<not> meshPresent then st
      else
        (let active = activeHand hand readingMode;
             swiping = (case active of Some h \<Rightarrow> gesture h = SWIPE | None \<Rightarrow> False);
             swipeActive = (if swiping then 1 else 0);
             disruptionTarget = disruptionTargetOf sent hand readingMode;
             currentDisruption = uDisruption st;
             lerpSpeed = disruptionLerpSpeed disruptionTarget currentDisruption
         in st\<lparr> uTime := elapsed,
                uSize := pointSize,
                uReadingMode := lerp (uReadingMode st) (if readingMode then 1.0 else 0.0) 0.05,
                uPointer := (case active of
                               Some h \<Rightarrow> if gesture h = SWIPE
                                         then (fst (pointer h) * 12, snd (pointer h) * 8)
                                         else uPointer st
                             | None \<Rightarrow> uPointer st),
                meshPosition := fst (meshTransform st active),
                meshRotation := snd (meshTransform st active),
                uSwipeActive := lerp (uSwipeActive st) swipeActive 0.1,
                uDisruption := lerp currentDisruption disruptionTarget lerpSpeed \<rparr>))"

definition calmScene :: sceneState where
  "calmScene =
     \<lparr> uTime = 0, uSize = 0.3, uDisruption = 0, uPointer = (0, 0), uSwipeActive = 0,
       uReadingMode = 0, meshPosition = (0, 0), meshRotation = (0, 0) \<rparr>"

section \<open>Recording: handleToggleRecording of App.tsx and the AudioStreamer class\<close>

text \<open>
  The browser side is explicit: every \<open>MediaStream\<close> that \<open>getUserMedia\<close> has returned is
  an entry of \<open>audioStreams\<close>, the list of the states of its tracks; every
  \<open>MediaRecorder\<close> is an entry of \<open>recorders\<close>; \<open>activeTimers\<close> are the intervals not yet
  cleared. Stopping a \<open>MediaRecorder\<close> ends the recording and leaves the tracks of its
  stream as they are; only \<open>track.stop()\<close> ends a track. \<open>granted\<close> is what
  \<open>getUserMedia\<close> answers: the number of audio tracks of the new stream, or \<open>None\<close> when
  the promise is rejected.
\<close>

datatype trackState = TrackLive | TrackEnded

datatype recorderState = Recording | Inactive

record recordingState =
  isRecording :: bool
  recognitionRunning :: bool
  mediaRecorderRef :: "nat option"
  sentimentIntervalRef :: "nat option"
  recorders :: "recorderState list"
  activeTimers :: "nat list"
  nextTimer :: nat
  audioStreams :: "trackState list list"

definition initialRecording :: recordingState where
  "initialRecording =
     \<lparr> isRecording = False, recognitionRunning = False, mediaRecorderRef = None,
       sentimentIntervalRef = None, recorders = [], activeTimers = [], nextTimer = 0,
       audioStreams = [] \<rparr>"

definition handleToggleRecording :: "recordingState \<Rightarrow> nat option \<Rightarrow> recordingState" where
  "handleToggleRecording st granted =
     (if isRecording st then
        (let st1 = st\<lparr> recognitionRunning := False, isRecording := False \<rparr>;
             st2 = (case mediaRecorderRef st1 of
                      Some r \<Rightarrow> st1\<lparr> recorders := (recorders st1)[r := Inactive],
                                     mediaRecorderRef := None \<rparr>
                    | None \<Rightarrow> st1)
         in case sentimentIntervalRef st2 of
              Some t \<Rightarrow> st2\<lparr> activeTimers := removeAll t (activeTimers st2),
                             sentimentIntervalRef := None \<rparr>
            | None \<Rightarrow> st2)
      else
        (let st1 = st\<lparr> recognitionRunning := True, isRecording := True \<rparr>
         in case granted of
              None \<Rightarrow> st1
            | Some tracks \<Rightarrow>
                st1\<lparr> audioStreams := audioStreams st1 @ [replicate tracks TrackLive],
                     recorders := recorders st1 @ [Recording],
                     mediaRecorderRef := Some (length (recorders st1)),
                     activeTimers := activeTimers st1 @ [nextTimer st1],
                     sentimentIntervalRef := Some (nextTimer st1),
                     nextTimer := nextTimer st1 + 1 \<rparr>))"

text \<open>No track of any stream acquired so far is live.\<close>

definition noLiveTrack :: "trackState list list \<Rightarrow> bool" where
  "noLiveTrack streams = list_all (list_all (\<lambda>t. t = TrackEnded)) streams"

text \<open>
  The capture side of \<open>AudioStreamer\<close>: the audio context, the script processor and the
  input stream (an index into the streams acquired), each null or present.
\<close>

record audioStreamer =
  audioContextOpen :: "bool option"
  processorConnected :: "bool option"
  inputStream :: "nat option"
  streamerStreams :: "trackState list list"

definition newStreamer :: audioStreamer where
  "newStreamer =
     \<lparr> audioContextOpen = None, processorConnected = None, inputStream = None,
       streamerStreams = [] \<rparr>"

definition startRecording :: "audioStreamer \<Rightarrow> nat option \<Rightarrow> audioStreamer" where
  "startRecording s granted =
     (let s1 = s\<lparr> audioContextOpen := Some True \<rparr>
      in case granted of
           None \<Rightarrow> s1
         | Some tracks \<Rightarrow>
             s1\<lparr> streamerStreams := streamerStreams s1 @ [replicate tracks TrackLive],
                 inputStream := Some (length (streamerStreams s1)),
                 processorConnected := Some True \<rparr>)"

definition stopRecording :: "audioStreamer \<Rightarrow> audioStreamer" where
  "stopRecording s =
     (let s1 = (case inputStream s of
                  Some i \<Rightarrow>
                    s\<lparr> streamerStreams :=
                         (streamerStreams s)[i := map (\<lambda>track. TrackEnded) (streamerStreams s ! i)],
                       inputStream := None \<rparr>
                | None \<Rightarrow> s);
          s2 = (case processorConnected s1 of
                  Some c \<Rightarrow> s1\<lparr> processorConnected := None \<rparr>
                | None \<Rightarrow> s1)
      in case audioContextOpen s2 of
           Some c \<Rightarrow> s2\<lparr> audioContextOpen := None \<rparr>
         | None \<Rightarrow> s2)"

section \<open>Verified properties of the gesture classifier\<close>

text \<open>
  C1. For every detected landmark frame (all 21 points present, video ready) the loop
  publishes a detected hand whose label is decided in strict priority order: PINCH when
  the pinch distance is below 0.08; otherwise OPEN when at least 4 fingers are extended;
  otherwise CLOSED when at most 1 finger is extended and the absolute palm-normal proxy
  exceeds 0.01; otherwise SWIPE when exactly 1 finger is extended, the pointer velocity
  exceeds 0.5 and the index finger is geometrically extended; otherwise IDLE.
\<close>

theorem gesture_priority_order:
  assumes "length landmarks \<ge> 21"
  shows "\<exists>st' h. detectLoop st True (Some (landmarks # others)) now = Inr st'
           \<and> handData st' = Some h \<and> detected h
           \<and> gesture h =
               (if pinchDistanceOf landmarks < 0.08 then PINCH
                else if extendedFingers landmarks \<ge> 4 then OPEN
                else if extendedFingers landmarks \<le> 1 \<and> \<bar>palmNormalZ landmarks\<bar> > 0.01 then CLOSED
                else if extendedFingers landmarks = 1
                        \<and> pointerVelocity st (pointerOf landmarks) now > 0.5
                        \<and> ly (landmarks ! 6) - ly (landmarks ! 8) > 0.05 then SWIPE
                else IDLE)"
  using assms by (simp add: detectLoop_def detectedHand_def classifyGesture_def Let_def)

lemma openFrame_pinch: "\<not> pinchDistanceOf openFrame < 0.08"
proof -
  have "(0.08::real)\<^sup>2 \<le> (0.2 - 0.5)\<^sup>2 + (0.5 - 0.2)\<^sup>2" by (simp add: power2_eq_square)
  then have "0.08 \<le> sqrt ((0.2 - 0.5)\<^sup>2 + (0.5 - 0.2)\<^sup>2 :: real)" by (rule real_le_rsqrt)
  then show ?thesis by (simp add: pinchDistanceOf_def openFrame_def pt_def)
qed

lemma openFrame_extended: "extendedFingers openFrame = 4"
  by (simp add: extendedFingers_def fingerExtended_def openFrame_def pt_def Let_def)

theorem gesture_priority_order_witness:
  "length frame0 \<ge> 21 \<and> length openFrame \<ge> 21
   \<and> (\<exists>st' h. detectLoop initialTracker True (Some [frame0]) 1000 = Inr st'
           \<and> handData st' = Some h \<and> detected h \<and> gesture h = PINCH)
   \<and> (\<exists>st' h. detectLoop initialTracker True (Some [openFrame]) 1000 = Inr st'
           \<and> handData st' = Some h \<and> detected h \<and> gesture h = OPEN)"
proof -
  have len: "length frame0 \<ge> 21" by (simp add: frame0_def)
  have pd: "pinchDistanceOf frame0 < 0.08" by (simp add: pinchDistanceOf_def frame0_def)
  have len': "length openFrame \<ge> 21" by (simp add: openFrame_def)
  from gesture_priority_order [OF len, of initialTracker "[]" 1000] pd
  have pinch: "\<exists>st' h. detectLoop initialTracker True (Some [frame0]) 1000 = Inr st'
           \<and> handData st' = Some h \<and> detected h \<and> gesture h = PINCH"
    by simp
  from gesture_priority_order [OF len', of initialTracker "[]" 1000] openFrame_pinch openFrame_extended
  have "\<exists>st' h. detectLoop initialTracker True (Some [openFrame]) 1000 = Inr st'
           \<and> handData st' = Some h \<and> detected h \<and> gesture h = OPEN"
    by simp
  with len len' pinch show ?thesis by blast
qed

section \<open>Polls without a hand\<close>

lemma lostHand_pointer: "lastPointerRef (lostHand st) = None"
  by (simp add: lostHand_def)

lemma lostHand_idem: "lostHand (lostHand st) = lostHand st"
  by (simp add: lostHand_def split: option.splits)

lemma velocity_no_pointer: "lastPointerRef st = None \<Longrightarrow> pointerVelocity st p now = 0"
  by (simp add: pointerVelocity_def)

lemma detectLoop_noHand: "noHand result \<Longrightarrow> detectLoop st True result now = Inr (lostHand st)"
  by (auto simp: detectLoop_def noHand_def split: option.splits list.splits)

lemma detectLoop_not_ready: "detectLoop st False result now = Inr st"
  by (simp add: detectLoop_def)

lemma detectLoop_frame0: "detectLoop initialTracker True (Some [frame0]) 1000 = Inr trackerAfterFrame0"
  by (simp add: detectLoop_def frame0_def trackerAfterFrame0_def initialTracker_def)

text \<open>
  A run of polls none of which detects a hand ends in the state itself when the video was
  never ready, and in the lost-hand state as soon as one poll ran the detector.
\<close>

lemma runPolls_gap:
  "\<forall>p \<in> set gap. \<not> pollDetects p \<Longrightarrow>
   runPolls st gap = Inr (if \<exists>p \<in> set gap. pollLost p then lostHand st else st)"
proof (induction gap arbitrary: st)
  case Nil
  then show ?case by simp
next
  case (Cons p gap)
  obtain v r n where p: "p = Poll v r n" by (cases p)
  from Cons.prems have rest: "\<forall>q \<in> set gap. \<not> pollDetects q" by simp
  show ?case
  proof (cases v)
    case True
    with Cons.prems p have nh: "noHand r" by simp
    have "runPolls (lostHand st) gap = Inr (lostHand st)"
      using Cons.IH [OF rest, of "lostHand st"] by (simp add: lostHand_idem)
    then show ?thesis using p True nh by (simp add: detectLoop_noHand)
  next
    case False
    then show ?thesis using p Cons.IH [OF rest, of st] by (simp add: detectLoop_not_ready)
  qed
qed

lemma runPolls_gap_pointer:
  assumes "\<forall>p \<in> set gap. \<not> pollDetects p" and "lastPointerRef st = None"
  shows "\<exists>st'. runPolls st gap = Inr st' \<and> lastPointerRef st' = None"
  using assms by (simp add: runPolls_gap lostHand_pointer)

text \<open>
  C9, as the code has it. On every poll that runs the detector and finds no hand, the
  published gesture state, when one exists, has detected = false and label IDLE (it stays
  absent when no hand was ever detected), the cached pointer sample is cleared, and after
  any further polls without a detection the velocity computed at the next detection is 0.
\<close>

theorem lost_poll_resets:
  assumes "noHand result"
  shows "\<exists>st'. detectLoop st True result now = Inr st'
           \<and> (case handData st of
                None \<Rightarrow> handData st' = None
              | Some prev \<Rightarrow> (\<exists>h. handData st' = Some h \<and> \<not> detected h \<and> gesture h = IDLE))
           \<and> lastPointerRef st' = None
           \<and> (\<forall>gap landmarks now'.
                 (\<forall>p \<in> set gap. \<not> pollDetects p) \<longrightarrow>
                 (\<exists>st''. runPolls st' gap = Inr st''
                    \<and> pointerVelocity st'' (pointerOf landmarks) now' = 0))"
proof -
  have step: "detectLoop st True result now = Inr (lostHand st)"
    using assms by (rule detectLoop_noHand)
  have published:
    "(case handData st of
        None \<Rightarrow> handData (lostHand st) = None
      | Some prev \<Rightarrow> (\<exists>h. handData (lostHand st) = Some h \<and> \<not> detected h \<and> gesture h = IDLE))"
    by (simp add: lostHand_def split: option.splits)
  have later: "\<exists>st''. runPolls (lostHand st) gap = Inr st''
                 \<and> pointerVelocity st'' (pointerOf landmarks) now' = 0"
    if "\<forall>p \<in> set gap. \<not> pollDetects p" for gap landmarks now'
  proof -
    from runPolls_gap_pointer [OF that lostHand_pointer]
    obtain st'' where "runPolls (lostHand st) gap = Inr st''" "lastPointerRef st'' = None"
      by blast
    then show ?thesis by (auto simp: velocity_no_pointer)
  qed
  show ?thesis
    using step published later lostHand_pointer by blast
qed

theorem lost_poll_resets_witness:
  "noHand None \<and>
   (\<exists>st'. detectLoop trackerAfterFrame0 True None 2000 = Inr st'
      \<and> (\<exists>h. handData st' = Some h \<and> \<not> detected h \<and> gesture h = IDLE)
      \<and> lastPointerRef st' = None
      \<and> (\<exists>st''. runPolls st' [Poll False None 2016, Poll True (Some []) 2033] = Inr st''
            \<and> pointerVelocity st'' (pointerOf frame0) 2050 = 0))"
proof -
  have nh: "noHand None" by (simp add: noHand_def)
  have gap: "\<forall>p \<in> set [Poll False None 2016, Poll True (Some []) 2033]. \<not> pollDetects p"
    by (simp add: noHand_def)
  have prev: "handData trackerAfterFrame0 = Some (detectedHand initialTracker frame0 1000)"
    by (simp add: trackerAfterFrame0_def)
  from lost_poll_resets [OF nh, of trackerAfterFrame0 2000]
  obtain st' where st':
    "detectLoop trackerAfterFrame0 True None 2000 = Inr st'"
    "case handData trackerAfterFrame0 of
       None \<Rightarrow> handData st' = None
     | Some prev \<Rightarrow> (\<exists>h. handData st' = Some h \<and> \<not> detected h \<and> gesture h = IDLE)"
    "lastPointerRef st' = None"
    "\<forall>gap landmarks now'.
       (\<forall>p \<in> set gap. \<not> pollDetects p) \<longrightarrow>
       (\<exists>st''. runPolls st' gap = Inr st'' \<and> pointerVelocity st'' (pointerOf landmarks) now' = 0)"
    by blast
  from st'(2) prev have "\<exists>h. handData st' = Some h \<and> \<not> detected h \<and> gesture h = IDLE"
    by simp
  moreover from st'(4) gap
  have "\<exists>st''. runPolls st' [Poll False None 2016, Poll True (Some []) 2033] = Inr st''
          \<and> pointerVelocity st'' (pointerOf frame0) 2050 = 0"
    by blast
  ultimately show ?thesis using nh st'(1,3) by blast
qed

text \<open>
  The claim as the specification words it fails before the first detection: the poll
  publishes no gesture state at all, so none with detected = false and label IDLE.
\<close>

theorem lost_poll_before_first_detection:
  "noHand None \<and>
   \<not> (\<exists>st' h. detectLoop initialTracker True None 1000 = Inr st'
         \<and> handData st' = Some h \<and> \<not> detected h \<and> gesture h = IDLE)"
  by (simp add: noHand_def detectLoop_def lostHand_def initialTracker_def)

text \<open>
  C10. On a poll where detection is lost, a published hand state changes only its
  detected flag (to false) and its label (to IDLE): position, palmCenter, pointer,
  rotation and pinchDistance keep their values, which through any run of polls without a
  detection are those computed from the last detected frame; and while no hand has ever
  been detected the hand state stays absent.
\<close>

theorem lost_poll_retains_fields:
  assumes "noHand result"
  shows "(\<forall>prev. handData st = Some prev \<longrightarrow>
            (\<exists>st' h. detectLoop st True result now = Inr st' \<and> handData st' = Some h
               \<and> h = prev\<lparr> detected := False, gesture := IDLE \<rparr>
               \<and> \<not> detected h \<and> gesture h = IDLE
               \<and> position h = position prev \<and> palmCenter h = palmCenter prev
               \<and> pointer h = pointer prev \<and> rotation h = rotation prev
               \<and> pinchDistance h = pinchDistance prev))
       \<and> (\<forall>st0 landmarks others t0 gap.
            length landmarks \<ge> 21 \<longrightarrow> (\<forall>p \<in> set gap. \<not> pollDetects p) \<longrightarrow>
            (\<exists>st'. runPolls st0 (Poll True (Some (landmarks # others)) t0 # gap @ [Poll True result now])
                      = Inr st'
               \<and> handData st' = Some ((detectedHand st0 landmarks t0)\<lparr> detected := False, gesture := IDLE \<rparr>)))
       \<and> (\<forall>gap. (\<forall>p \<in> set gap. \<not> pollDetects p) \<longrightarrow>
            (\<exists>st'. runPolls initialTracker (gap @ [Poll True result now]) = Inr st'
               \<and> handData st' = None))"
proof (intro conjI allI impI)
  fix prev assume "handData st = Some prev"
  then show "\<exists>st' h. detectLoop st True result now = Inr st' \<and> handData st' = Some h
               \<and> h = prev\<lparr> detected := False, gesture := IDLE \<rparr>
               \<and> \<not> detected h \<and> gesture h = IDLE
               \<and> position h = position prev \<and> palmCenter h = palmCenter prev
               \<and> pointer h = pointer prev \<and> rotation h = rotation prev
               \<and> pinchDistance h = pinchDistance prev"
    using assms by (simp add: detectLoop_noHand lostHand_def)
next
  fix st0 :: trackerState and landmarks :: "landmark list" and others t0 gap
  assume len: "21 \<le> length landmarks" and gap: "\<forall>p \<in> set gap. \<not> pollDetects p"
  let ?last = "Poll True result now"
  let ?st1 = "st0\<lparr> handData := Some (detectedHand st0 landmarks t0),
                   lastPointerRef := Some (pointerOf landmarks), lastTimeRef := t0 \<rparr>"
  have all: "\<forall>p \<in> set (gap @ [?last]). \<not> pollDetects p" using gap assms by simp
  have lost: "\<exists>p \<in> set (gap @ [?last]). pollLost p" using assms by simp
  have "runPolls ?st1 (gap @ [?last]) = Inr (lostHand ?st1)"
    using runPolls_gap [OF all, of ?st1] lost by simp
  moreover have "detectLoop st0 True (Some (landmarks # others)) t0 = Inr ?st1"
    using len by (simp add: detectLoop_def)
  ultimately show "\<exists>st'. runPolls st0 (Poll True (Some (landmarks # others)) t0 # gap @ [?last]) = Inr st'
      \<and> handData st' = Some ((detectedHand st0 landmarks t0)\<lparr> detected := False, gesture := IDLE \<rparr>)"
    by (simp add: lostHand_def)
next
  fix gap assume gap: "\<forall>p \<in> set gap. \<not> pollDetects p"
  let ?last = "Poll True result now"
  have all: "\<forall>p \<in> set (gap @ [?last]). \<not> pollDetects p" using gap assms by simp
  have lost: "\<exists>p \<in> set (gap @ [?last]). pollLost p" using assms by simp
  have "runPolls initialTracker (gap @ [?last]) = Inr (lostHand initialTracker)"
    using runPolls_gap [OF all, of initialTracker] lost by simp
  then show "\<exists>st'. runPolls initialTracker (gap @ [?last]) = Inr st' \<and> handData st' = None"
    by (simp add: lostHand_def initialTracker_def)
qed

theorem lost_poll_retains_fields_witness:
  "noHand (Some []) \<and> handData trackerAfterFrame0 = Some (detectedHand initialTracker frame0 1000)
   \<and> (\<exists>st' h. detectLoop trackerAfterFrame0 True (Some []) 2000 = Inr st' \<and> handData st' = Some h
         \<and> \<not> detected h \<and> gesture h = IDLE \<and> position h = (0, 0, 0) \<and> pointer h = (0, 0)
         \<and> pinchDistance h = 0)
   \<and> (\<exists>st'. runPolls initialTracker [Poll False None 500, Poll True (Some []) 2000] = Inr st'
         \<and> handData st' = None)"
proof -
  have nh: "noHand (Some [])" by (simp add: noHand_def)
  have prev: "handData trackerAfterFrame0 = Some (detectedHand initialTracker frame0 1000)"
    by (simp add: trackerAfterFrame0_def)
  have gap: "\<forall>p \<in> set [Poll False None 500]. \<not> pollDetects p" by simp
  have vals: "position (detectedHand initialTracker frame0 1000) = (0, 0, 0)"
    "pointer (detectedHand initialTracker frame0 1000) = (0, 0)"
    "pinchDistance (detectedHand initialTracker frame0 1000) = 0"
    by (simp_all add: detectedHand_def frame0_def pointerOf_def pinchDistanceOf_def Let_def)
  note inst = lost_poll_retains_fields [OF nh, of trackerAfterFrame0 2000]
  from inst prev have
    "\<exists>st' h. detectLoop trackerAfterFrame0 True (Some []) 2000 = Inr st' \<and> handData st' = Some h
       \<and> h = (detectedHand initialTracker frame0 1000)\<lparr> detected := False, gesture := IDLE \<rparr>
       \<and> \<not> detected h \<and> gesture h = IDLE
       \<and> position h = position (detectedHand initialTracker frame0 1000)
       \<and> palmCenter h = palmCenter (detectedHand initialTracker frame0 1000)
       \<and> pointer h = pointer (detectedHand initialTracker frame0 1000)
       \<and> rotation h = rotation (detectedHand initialTracker frame0 1000)
       \<and> pinchDistance h = pinchDistance (detectedHand initialTracker frame0 1000)"
    by blast
  then have a: "\<exists>st' h. detectLoop trackerAfterFrame0 True (Some []) 2000 = Inr st' \<and> handData st' = Some h
         \<and> \<not> detected h \<and> gesture h = IDLE \<and> position h = (0, 0, 0) \<and> pointer h = (0, 0)
         \<and> pinchDistance h = 0"
    using vals by auto
  from inst gap have
    b: "\<exists>st'. runPolls initialTracker ([Poll False None 500] @ [Poll True (Some []) 2000]) = Inr st'
         \<and> handData st' = None"
    by blast
  show ?thesis using nh prev a b by simp
qed

section \<open>Verified properties of the sampler\<close>

lemma sampleLoop_bounds:
  assumes "int (length pts) \<le> targetCount" and "attempts \<le> targetCount * 200"
    and "sampleLoop aspectRatio data targetCount rand pts attempts k = (ps, a, k')"
  shows "int (length ps) \<le> targetCount \<and> a \<le> targetCount * 200
         \<and> (int (length ps) = targetCount \<or> a = targetCount * 200)"
  using assms
proof (induction aspectRatio data targetCount rand pts attempts k rule: sampleLoop.induct)
  case (1 aspectRatio data targetCount rand pts attempts k)
  show ?case
  proof (cases "int (length pts) < targetCount \<and> attempts < targetCount * 200")
    case False
    with "1.prems" show ?thesis by (simp add: sampleLoop.simps [of _ _ _ _ pts]) linarith
  next
    case True
    obtain q k1 where step: "sampleStep aspectRatio data rand k = (q, k1)"
      by (cases "sampleStep aspectRatio data rand k")
    show ?thesis
    proof (cases q)
      case None
      have "sampleLoop aspectRatio data targetCount rand pts (attempts + 1) k1 = (ps, a, k')"
        using "1.prems"(3) True step None
        by (simp add: sampleLoop.simps [of _ _ _ _ pts attempts])
      with "1.IH"(1) [OF True step [symmetric] None] "1.prems"(1) True
      show ?thesis by simp
    next
      case (Some p)
      have "sampleLoop aspectRatio data targetCount rand (pts @ [p]) (attempts + 1) k1 = (ps, a, k')"
        using "1.prems"(3) True step Some
        by (simp add: sampleLoop.simps [of _ _ _ _ pts attempts])
      with "1.IH"(2) [OF True step [symmetric] Some] True
      show ?thesis by simp
    qed
  qed
qed

lemma sampleLoop_no_room:
  "targetCount \<le> 0 \<Longrightarrow> sampleLoop aspectRatio data targetCount rand [] 0 0 = ([], 0, 0)"
  by (simp add: sampleLoop.simps)


lemma sampleLoop_from_empty:
  assumes "0 \<le> targetCount"
  shows "int (length (acceptedParticles aspectRatio data targetCount rand)) \<le> targetCount
         \<and> (int (length (acceptedParticles aspectRatio data targetCount rand)) = targetCount
            \<or> attemptsUsed aspectRatio data targetCount rand = targetCount * 200)"
proof -
  obtain ps a k' where run: "sampleLoop aspectRatio data targetCount rand [] 0 0 = (ps, a, k')"
    by (cases "sampleLoop aspectRatio data targetCount rand [] 0 0")
  from sampleLoop_bounds [OF _ _ run] assms
  show ?thesis by (simp add: acceptedParticles_def attemptsUsed_def run)
qed

text \<open>
  C2, as the code has it. For every decoded image and every target count N of at least 1
  the sampler returns at least one and at most N points: exactly N unless the 200 * N
  attempts were used up first, the accepted points whenever there are any, and exactly the
  one white fallback point at the origin when no pixel was accepted. For a target count
  below 1 the loop never runs and the result is the fallback point alone.
\<close>

theorem sampler_point_count:
  assumes "1 \<le> targetCount"
  shows "\<exists>ps. processImageToParticles (Loaded aspectRatio data) targetCount rand = Inr ps
           \<and> 1 \<le> length ps \<and> int (length ps) \<le> targetCount
           \<and> (int (length ps) = targetCount
              \<or> attemptsUsed aspectRatio data targetCount rand = targetCount * 200)
           \<and> (if acceptedParticles aspectRatio data targetCount rand = []
               then ps = [fallbackParticle]
               else ps = acceptedParticles aspectRatio data targetCount rand)
           \<and> (\<forall>n \<le> 0. processImageToParticles (Loaded aspectRatio data) n rand
                         = Inr [fallbackParticle])"
proof -
  let ?acc = "acceptedParticles aspectRatio data targetCount rand"
  have nonneg: "0 \<le> targetCount" using assms by simp
  note bounds = sampleLoop_from_empty [OF nonneg, of aspectRatio data rand]
  have low: "\<forall>n \<le> 0. processImageToParticles (Loaded aspectRatio data) n rand = Inr [fallbackParticle]"
    by (simp add: processImageToParticles_def acceptedParticles_def sampleLoop_no_room)
  show ?thesis
  proof (cases "?acc = []")
    case True
    with bounds assms low show ?thesis
      by (simp add: processImageToParticles_def)
  next
    case False
    then have "1 \<le> length ?acc" by (cases ?acc) simp_all
    with False bounds low show ?thesis
      by (simp add: processImageToParticles_def)
  qed
qed

lemma sampleStep_whiteCorner:
  "sampleStep 1 whiteCorner (\<lambda>_. 0) k =
     (Some \<lparr> pX = -5, pY = 5, pZ = 5/4, pR = 1, pG = 1, pB = 1,
             originalX = -5, originalY = 5, originalZ = 5/4, random_p = 0 \<rparr>, k + 5)"
  by (simp add: sampleStep_def whiteCorner_def byteAt_def channel_def Let_def)

theorem sampler_point_count_witness:
  "(1::int) \<le> 1
   \<and> processImageToParticles (Loaded 1 whiteCorner) 1 (\<lambda>_. 0)
       = Inr [\<lparr> pX = -5, pY = 5, pZ = 5/4, pR = 1, pG = 1, pB = 1,
                originalX = -5, originalY = 5, originalZ = 5/4, random_p = 0 \<rparr>]
   \<and> processImageToParticles (Loaded 1 whiteCorner) 0 (\<lambda>_. 0) = Inr [fallbackParticle]"
proof -
  have one: "(1::int) \<le> 1" by simp
  have acc: "acceptedParticles 1 whiteCorner 1 (\<lambda>_. 0) =
       [\<lparr> pX = -5, pY = 5, pZ = 5/4, pR = 1, pG = 1, pB = 1,
          originalX = -5, originalY = 5, originalZ = 5/4, random_p = 0 \<rparr>]"
    by (simp add: acceptedParticles_def sampleLoop.simps sampleStep_whiteCorner)
  from sampler_point_count [OF one, of 1 whiteCorner "\<lambda>_. 0"] acc
  show ?thesis by auto
qed

text \<open>
  The claim as the specification words it, for every target count, fails at N = 0: the
  loop accepts nothing and the fallback makes the result one point, more than N.
\<close>

theorem sampler_zero_target:
  "\<exists>ps. processImageToParticles (Loaded 1 whiteCorner) 0 (\<lambda>_. 0) = Inr ps
      \<and> ps = [fallbackParticle] \<and> \<not> int (length ps) \<le> 0"
  by (simp add: processImageToParticles_def acceptedParticles_def sampleLoop.simps)

section \<open>Verified properties of the glyph life cycle\<close>

subsection \<open>Phases only advance\<close>

lemma stepParticle_phase:
  "phase (stepParticle hand now time safeDelta p) = phase p
   \<or> (phase p = Spawn \<and> phase (stepParticle hand now time safeDelta p) = Fly)
   \<or> (phase p = Fly \<and> phase (stepParticle hand now time safeDelta p) = Dock)"
  by (cases "phase p") (simp_all add: stepParticle_def Let_def)

lemma stepParticle_rank:
  "phaseRank (phase p) \<le> phaseRank (phase (stepParticle hand now time safeDelta p))"
  using stepParticle_phase [of hand now time safeDelta p]
  by (auto simp: phaseRank_def)

text \<open>Stepping the entries of the physics map keeps every object and lowers no rank.\<close>

lemma stepEntry_rank:
  "length (stepEntry refs hand now time sd entry os) = length os
   \<and> (\<forall>b < length os.
        phaseRank (phase (os ! b))
          \<le> phaseRank (phase (stepEntry refs hand now time sd entry os ! b)))"
proof (cases entry)
  case (Pair i a)
  show ?thesis
  proof (cases "a < length os")
    case True
    then show ?thesis
      by (simp add: stepEntry_def Pair nth_list_update stepParticle_rank)
  next
    case False
    then show ?thesis by (simp add: stepEntry_def Pair)
  qed
qed

lemma stepEntries_rank:
  "length (fold (stepEntry refs hand now time sd) entries os) = length os
   \<and> (\<forall>b < length os.
        phaseRank (phase (os ! b))
          \<le> phaseRank (phase (fold (stepEntry refs hand now time sd) entries os ! b)))"
proof (induction entries arbitrary: os)
  case Nil
  then show ?case by simp
next
  case (Cons e entries)
  let ?os1 = "stepEntry refs hand now time sd e os"
  from stepEntry_rank [of refs hand now time sd e os]
  have len1: "length ?os1 = length os"
    and rank1: "\<forall>b < length os. phaseRank (phase (os ! b)) \<le> phaseRank (phase (?os1 ! b))"
    by simp_all
  from Cons.IH [of ?os1]
  have len2: "length (fold (stepEntry refs hand now time sd) entries ?os1) = length ?os1"
    and rank2: "\<forall>b < length ?os1. phaseRank (phase (?os1 ! b))
        \<le> phaseRank (phase (fold (stepEntry refs hand now time sd) entries ?os1 ! b))"
    by simp_all
  show ?case
  proof (intro conjI allI impI)
    show "length (fold (stepEntry refs hand now time sd) (e # entries) os) = length os"
      using len1 len2 by simp
  next
    fix b assume b: "b < length os"
    with rank1 have "phaseRank (phase (os ! b)) \<le> phaseRank (phase (?os1 ! b))" by simp
    also from rank2 b len1
    have "\<dots> \<le> phaseRank (phase (fold (stepEntry refs hand now time sd) entries ?os1 ! b))"
      by simp
    finally show "phaseRank (phase (os ! b))
        \<le> phaseRank (phase (fold (stepEntry refs hand now time sd) (e # entries) os ! b))"
      by simp
  qed
qed

lemma capParticles_objs: "objs (capParticles st addrs) = objs st"
  by (simp add: capParticles_def Let_def)

lemma spawnGlyphs_objs:
  "objs (spawnGlyphs st isRestoring newPart now ids)
     = objs st @ newParticleObjs isRestoring (totalCharCountRef st) now ids newPart"
  by (simp add: spawnGlyphs_def Let_def capParticles_objs)

text \<open>The effect only ever adds objects to the store: it mutates none.\<close>

lemma useEffectSpawn_objs:
  "\<exists>created. objs (useEffectSpawn st transcript sceneVersion now ids) = objs st @ created"
  by (simp add: useEffectSpawn_def Let_def spawnGlyphs_objs)

lemma textStep_rank:
  assumes "b < length (objs st)"
  shows "b < length (objs (textStep st ev))
         \<and> phaseRank (phase (objs st ! b)) \<le> phaseRank (phase (objs (textStep st ev) ! b))"
proof (cases ev)
  case (Frame readingMode hand now time delta)
  with assms stepEntries_rank [of "textRefs st" hand now time "min delta 0.1" "physicsStateRef st" "objs st"]
  show ?thesis by (simp add: useFrameText_def Let_def)
next
  case (TranscriptChange transcript sceneVersion now ids)
  from useEffectSpawn_objs [of st transcript sceneVersion now ids]
  obtain created where "objs (useEffectSpawn st transcript sceneVersion now ids) = objs st @ created"
    by blast
  with assms TranscriptChange show ?thesis by (simp add: nth_append)
next
  case Commit
  with assms show ?thesis by (simp add: commitRender_def)
qed

lemma runText_rank:
  assumes "b < length (objs st)"
  shows "b < length (objs (runText st evs))
         \<and> phaseRank (phase (objs st ! b)) \<le> phaseRank (phase (objs (runText st evs) ! b))"
  using assms
proof (induction evs arbitrary: st)
  case Nil
  then show ?case by (simp add: runText_def)
next
  case (Cons ev evs)
  from textStep_rank [OF Cons.prems, of ev]
  have b1: "b < length (objs (textStep st ev))"
    and r1: "phaseRank (phase (objs st ! b)) \<le> phaseRank (phase (objs (textStep st ev) ! b))"
    by simp_all
  from Cons.IH [OF b1]
  have "b < length (objs (runText (textStep st ev) evs))"
    and "phaseRank (phase (objs (textStep st ev) ! b))
           \<le> phaseRank (phase (objs (runText (textStep st ev) evs) ! b))"
    by simp_all
  with r1 show ?case by (simp add: runText_def)
qed

text \<open>
  C3. For every glyph particle and every sequence of physics frames, also interleaved
  with transcript updates and render commits, the phase only advances in the order spawn,
  fly, dock: its rank never decreases, a docked particle stays docked, a flying one never
  returns to spawn, and one frame moves a particle at most from spawn to fly or from fly
  to dock.
\<close>

theorem phase_never_regresses:
  assumes "b < length (objs st)"
  shows "b < length (objs (runText st evs))
         \<and> phaseRank (phase (objs st ! b)) \<le> phaseRank (phase (objs (runText st evs) ! b))
         \<and> (phase (objs st ! b) = Dock \<longrightarrow> phase (objs (runText st evs) ! b) = Dock)
         \<and> (phase (objs st ! b) = Fly \<longrightarrow> phase (objs (runText st evs) ! b) \<noteq> Spawn)
         \<and> (\<forall>hand now time safeDelta p.
               phase (stepParticle hand now time safeDelta p) = phase p
               \<or> (phase p = Spawn \<and> phase (stepParticle hand now time safeDelta p) = Fly)
               \<or> (phase p = Fly \<and> phase (stepParticle hand now time safeDelta p) = Dock))"
proof -
  from runText_rank [OF assms, of evs]
  have len: "b < length (objs (runText st evs))"
    and rank: "phaseRank (phase (objs st ! b)) \<le> phaseRank (phase (objs (runText st evs) ! b))"
    by simp_all
  from rank have dock: "phase (objs st ! b) = Dock \<longrightarrow> phase (objs (runText st evs) ! b) = Dock"
    by (cases "phase (objs (runText st evs) ! b)") (auto simp: phaseRank_def)
  from rank have fly: "phase (objs st ! b) = Fly \<longrightarrow> phase (objs (runText st evs) ! b) \<noteq> Spawn"
    by (auto simp: phaseRank_def)
  from len rank dock fly stepParticle_phase show ?thesis by blast
qed

lemma js_HI: "js ''HI'' = [72, 73]"
  by (simp add: js_def)

lemma hiSpawned_state:
  "physicsStateRef hiSpawned = [([0], 0), ([1], 1)]"
  "textRefs hiSpawned = [[0], [1]]"
  "particles hiSpawned = [0, 1]"
  by (simp_all add: hiSpawned_def runText_def js_HI useEffectSpawn_def initialText_def Let_def
      newPartOf_def startsWith_def spawnGlyphs_def newParticleObjs_def newParticle_def
      capParticles_def MAX_CHARS_def commitRender_def unitIds_def enumerate_eq_zip upt_rec)

lemma hiSpawned_objs:
  "objs hiSpawned = [newParticle False 0 2 1000 unitIds 0 72, newParticle False 0 2 1000 unitIds 1 73]"
  unfolding numeral_2_eq_2 One_nat_def
  by (simp add: hiSpawned_def runText_def js_HI useEffectSpawn_def initialText_def Let_def
      newPartOf_def startsWith_def spawnGlyphs_def newParticleObjs_def
      capParticles_def MAX_CHARS_def commitRender_def unitIds_def enumerate_eq_zip upt_rec)

lemma hiDocked_phases: "map phase (objs hiDocked) = [Dock, Fly]"
  by (simp add: hiDocked_def runText_def useFrameText_def hiSpawned_state hiSpawned_objs
      stepEntry_def stepParticle_def newParticle_def unitIds_def Let_def)

theorem phase_never_regresses_witness:
  "0 < length (objs hiDocked) \<and> phase (objs hiDocked ! 0) = Dock
   \<and> phase (objs (runText hiDocked
          [Frame False (Some openHand) 7066 6.07 0.016,
           TranscriptChange (js ''HI THERE'') 0 7070 unitIds, Commit,
           Frame False None 9000 8 0.25]) ! 0) = Dock"
proof -
  have "length (map phase (objs hiDocked)) = 2" by (simp only: hiDocked_phases) simp
  then have len: "0 < length (objs hiDocked)" by simp
  have "map phase (objs hiDocked) ! 0 = Dock" by (simp only: hiDocked_phases) simp
  with len have dock: "phase (objs hiDocked ! 0) = Dock" by simp
  from phase_never_regresses [OF len] dock len show ?thesis by blast
qed

subsection \<open>Appended text spawns only its suffix\<close>

lemma capParticles_particles:
  "particles (capParticles st addrs) = lastMaxChars (particles st @ addrs)"
  by (simp add: capParticles_def lastMaxChars_def Let_def)

lemma newParticle_char: "char_p (newParticle isRestoring tcc n now ids i c) = [c]"
  by (simp add: newParticle_def Let_def)

lemma newParticle_phase: "phase (newParticle isRestoring tcc n now ids i c) = Spawn"
  by (simp add: newParticle_def Let_def)

lemma newParticleObjs_chars:
  "map char_p (newParticleObjs isRestoring tcc now ids part) = map (\<lambda>c. [c]) part"
proof -
  have "map char_p (newParticleObjs isRestoring tcc now ids part)
          = map (\<lambda>x. [snd x]) (enumerate 0 part)"
    by (simp add: newParticleObjs_def newParticle_char split_def comp_def)
  also have "\<dots> = map (\<lambda>c. [c]) (map snd (enumerate 0 part))"
    by (simp only: map_map comp_def)
  finally show ?thesis by (simp only: map_snd_enumerate)
qed

lemma newParticleObjs_length:
  "length (newParticleObjs isRestoring tcc now ids part) = length part"
  by (simp add: newParticleObjs_def)

lemma newParticleObjs_phase:
  "p \<in> set (newParticleObjs isRestoring tcc now ids part) \<Longrightarrow> phase p = Spawn"
  by (auto simp: newParticleObjs_def newParticle_phase)

lemma spawnGlyphs_particles:
  "particles (spawnGlyphs st isRestoring newPart now ids)
     = lastMaxChars (particles st @ [length (objs st) ..< length (objs st) + length newPart])"
  by (simp add: spawnGlyphs_def Let_def capParticles_particles newParticleObjs_length)

lemma useEffectSpawn_refs:
  "transcript \<noteq> [] \<Longrightarrow>
   lastTranscriptRef (useEffectSpawn st transcript sceneVersion now ids) = transcript
   \<and> lastSceneVersionRef (useEffectSpawn st transcript sceneVersion now ids) = sceneVersion"
  by (simp add: useEffectSpawn_def Let_def spawnGlyphs_def capParticles_def)

text \<open>
  C4. For every transcript update where the new text starts with the previous text (the
  text the effect last processed, \<open>lastTranscriptRef\<close>) and no scene reset occurred,
  glyph particles are created only for the appended suffix: exactly as many new objects as
  the new text is longer, carrying the characters of the suffix in order, all in the spawn
  phase, and appended to the rendered array (capped to its last \<open>MAX_CHARS\<close> entries).
  After HELLO, the transcript HELLO WORLD creates exactly 6 new glyphs, not 11.
\<close>

theorem append_spawns_suffix:
  assumes "transcript \<noteq> []"
    and "sceneVersion = lastSceneVersionRef st"
    and "startsWith transcript (lastTranscriptRef st)"
  shows "\<exists>created.
           objs (useEffectSpawn st transcript sceneVersion now ids) = objs st @ created
         \<and> map char_p created = map (\<lambda>c. [c]) (drop (length (lastTranscriptRef st)) transcript)
         \<and> length created = length transcript - length (lastTranscriptRef st)
         \<and> (\<forall>p \<in> set created. phase p = Spawn)
         \<and> particles (useEffectSpawn st transcript sceneVersion now ids)
             = (if created = [] then particles st
                else lastMaxChars
                       (particles st @ [length (objs st) ..< length (objs st) + length created]))
         \<and> lastTranscriptRef (useEffectSpawn st transcript sceneVersion now ids) = transcript
         \<and> lastSceneVersionRef (useEffectSpawn st transcript sceneVersion now ids) = sceneVersion"
proof -
  let ?suffix = "drop (length (lastTranscriptRef st)) transcript"
  let ?created = "newParticleObjs False (totalCharCountRef st) now ids ?suffix"
  let ?st' = "useEffectSpawn st transcript sceneVersion now ids"
  have part: "newPartOf False False (lastTranscriptRef st) transcript = ?suffix"
    using assms(3) by (simp add: newPartOf_def)
  have empty: "?created = [] \<longleftrightarrow> ?suffix = []"
    using newParticleObjs_length [of False "totalCharCountRef st" now ids ?suffix]
    by (metis length_0_conv)
  have objs: "objs ?st' = objs st @ ?created"
  proof (cases "?suffix = []")
    case True
    with empty have "?created = []" by simp
    with True assms(1,2) part show ?thesis
      by (simp add: useEffectSpawn_def Let_def)
  next
    case False
    with assms(1,2) part show ?thesis
      by (simp add: useEffectSpawn_def Let_def spawnGlyphs_objs)
  qed
  have parts: "particles ?st'
      = (if ?created = [] then particles st
         else lastMaxChars
                (particles st @ [length (objs st) ..< length (objs st) + length ?created]))"
  proof (cases "?suffix = []")
    case True
    with empty have "?created = []" by simp
    with True assms(1,2) part show ?thesis
      by (simp add: useEffectSpawn_def Let_def)
  next
    case False
    with empty have "?created \<noteq> []" by simp
    with False assms(1,2) part show ?thesis
      by (simp add: useEffectSpawn_def Let_def spawnGlyphs_particles newParticleObjs_length)
  qed
  have chars: "map char_p ?created = map (\<lambda>c. [c]) ?suffix"
    by (rule newParticleObjs_chars)
  have len: "length ?created = length transcript - length (lastTranscriptRef st)"
    by (simp add: newParticleObjs_length)
  have ph: "\<forall>p \<in> set ?created. phase p = Spawn"
    using newParticleObjs_phase by blast
  from useEffectSpawn_refs [OF assms(1), of st sceneVersion now ids]
  have refs: "lastTranscriptRef ?st' = transcript" "lastSceneVersionRef ?st' = sceneVersion"
    by simp_all
  from objs chars len ph parts refs show ?thesis by blast
qed

lemma js_HELLO: "js ''HELLO'' = [72, 69, 76, 76, 79]"
  by (simp add: js_def)

lemma js_HELLO_WORLD: "js ''HELLO WORLD'' = [72, 69, 76, 76, 79, 32, 87, 79, 82, 76, 68]"
  by (simp add: js_def)

lemma js_WORLD: "js '' WORLD'' = [32, 87, 79, 82, 76, 68]"
  by (simp add: js_def)

lemma helloSpawned_state:
  "lastTranscriptRef helloSpawned = js ''HELLO''"
  "lastSceneVersionRef helloSpawned = 0"
  "length (objs helloSpawned) = 5"
  "particles helloSpawned = [0, 1, 2, 3, 4]"
  by (simp_all add: helloSpawned_def js_HELLO useEffectSpawn_def initialText_def Let_def
      newPartOf_def startsWith_def spawnGlyphs_def newParticleObjs_def
      capParticles_def MAX_CHARS_def upt_rec)

theorem append_spawns_suffix_witness:
  "js ''HELLO WORLD'' \<noteq> [] \<and> (0::int) = lastSceneVersionRef helloSpawned
   \<and> lastTranscriptRef helloSpawned = js ''HELLO''
   \<and> startsWith (js ''HELLO WORLD'') (lastTranscriptRef helloSpawned)
   \<and> length (objs helloSpawned) = 5
   \<and> (\<exists>created.
         objs (useEffectSpawn helloSpawned (js ''HELLO WORLD'') 0 2000 unitIds)
           = objs helloSpawned @ created
       \<and> length created = 6
       \<and> map char_p created = map (\<lambda>c. [c]) (js '' WORLD'')
       \<and> particles (useEffectSpawn helloSpawned (js ''HELLO WORLD'') 0 2000 unitIds)
           = [0, 1, 2, 3, 4, 5, 6, 7, 8, 9, 10])"
proof -
  have ne: "js ''HELLO WORLD'' \<noteq> []" by (simp add: js_HELLO_WORLD)
  have ver: "(0::int) = lastSceneVersionRef helloSpawned" by (simp add: helloSpawned_state)
  have pre: "startsWith (js ''HELLO WORLD'') (lastTranscriptRef helloSpawned)"
    by (simp add: helloSpawned_state startsWith_def js_HELLO js_HELLO_WORLD)
  have suffix: "drop (length (lastTranscriptRef helloSpawned)) (js ''HELLO WORLD'') = js '' WORLD''"
    by (simp add: helloSpawned_state js_HELLO js_HELLO_WORLD js_WORLD)
  from append_spawns_suffix [OF ne ver pre, of 2000 unitIds]
  obtain created where c:
    "objs (useEffectSpawn helloSpawned (js ''HELLO WORLD'') 0 2000 unitIds) = objs helloSpawned @ created"
    "map char_p created = map (\<lambda>c. [c]) (drop (length (lastTranscriptRef helloSpawned)) (js ''HELLO WORLD''))"
    "length created = length (js ''HELLO WORLD'') - length (lastTranscriptRef helloSpawned)"
    "particles (useEffectSpawn helloSpawned (js ''HELLO WORLD'') 0 2000 unitIds)
       = (if created = [] then particles helloSpawned
          else lastMaxChars (particles helloSpawned
                 @ [length (objs helloSpawned) ..< length (objs helloSpawned) + length created]))"
    by blast
  from c(3) have six: "length created = 6"
    by (simp add: helloSpawned_state js_HELLO js_HELLO_WORLD)
  then have "created \<noteq> []" by auto
  with c(4) six
  have "particles (useEffectSpawn helloSpawned (js ''HELLO WORLD'') 0 2000 unitIds)
          = [0, 1, 2, 3, 4, 5, 6, 7, 8, 9, 10]"
    by (simp add: helloSpawned_state lastMaxChars_def MAX_CHARS_def upt_rec)
  with c(1,2) six suffix ne ver pre helloSpawned_state show ?thesis by auto
qed

section \<open>Verified properties of the memory search\<close>

lemma mset_insertBy: "mset (insertBy cmp a bs) = add_mset a (mset bs)"
  by (induction bs) simp_all

lemma mset_sortJs: "mset (sortJs cmp xs) = mset xs"
  by (induction xs) (simp_all add: sortJs_def mset_insertBy)

lemma set_insertBy: "set (insertBy cmp a bs) = insert a (set bs)"
  using mset_insertBy [of cmp a bs] by (metis set_mset_add_mset_insert set_mset_mset)

lemma set_sortJs: "set (sortJs cmp xs) = set xs"
  using mset_sortJs [of cmp xs] by (metis set_mset_mset)

lemma sortJs_Cons: "sortJs cmp (x # xs) = insertBy cmp x (sortJs cmp xs)"
  by (simp add: sortJs_def)

text \<open>
  Inserting keeps a list ordered by a transitive relation that the comparator decides on
  the elements at hand.
\<close>

lemma sorted_wrt_insertBy:
  assumes le: "\<And>x y. P x \<Longrightarrow> P y \<Longrightarrow> cmp x y \<le> 0 \<Longrightarrow> R x y"
    and gt: "\<And>x y. P x \<Longrightarrow> P y \<Longrightarrow> \<not> cmp x y \<le> 0 \<Longrightarrow> R y x"
    and tr: "\<And>x y z. R x y \<Longrightarrow> R y z \<Longrightarrow> R x z"
    and "P a" and "\<forall>b \<in> set bs. P b" and "sorted_wrt R bs"
  shows "sorted_wrt R (insertBy cmp a bs)"
  using assms(4-)
proof (induction bs)
  case Nil
  then show ?case by simp
next
  case (Cons b bs)
  show ?case
  proof (cases "cmp a b \<le> 0")
    case True
    with Cons.prems have ab: "R a b" by (simp add: le)
    have "R a c" if "c \<in> set bs" for c
      using that Cons.prems(3) ab tr by auto
    with True ab Cons.prems(3) show ?thesis by auto
  next
    case False
    with Cons.prems have ba: "R b a" by (simp add: gt)
    have "sorted_wrt R (insertBy cmp a bs)"
      using Cons.IH Cons.prems by simp
    with False ba Cons.prems(3) show ?thesis by (auto simp: set_insertBy)
  qed
qed

lemma sorted_wrt_sortJs:
  assumes le: "\<And>x y. P x \<Longrightarrow> P y \<Longrightarrow> cmp x y \<le> 0 \<Longrightarrow> R x y"
    and gt: "\<And>x y. P x \<Longrightarrow> P y \<Longrightarrow> \<not> cmp x y \<le> 0 \<Longrightarrow> R y x"
    and tr: "\<And>x y z. R x y \<Longrightarrow> R y z \<Longrightarrow> R x z"
    and "\<forall>x \<in> set xs. P x"
  shows "sorted_wrt R (sortJs cmp xs)"
  using assms(4)
proof (induction xs)
  case Nil
  then show ?case by (simp add: sortJs_def)
next
  case (Cons x xs)
  have "sorted_wrt R (insertBy cmp x (sortJs cmp xs))"
  proof (rule sorted_wrt_insertBy [where P = P])
    show "P x" using Cons.prems by simp
    show "\<forall>b \<in> set (sortJs cmp xs). P b" using Cons.prems by (simp add: set_sortJs)
    show "sorted_wrt R (sortJs cmp xs)" using Cons.IH Cons.prems by simp
  qed (fact le gt tr)+
  then show ?case by (simp add: sortJs_Cons)
qed

lemma insertBy_cong:
  "\<forall>b \<in> set bs. cmp a b = cmp' a b \<Longrightarrow> insertBy cmp a bs = insertBy cmp' a bs"
  by (induction bs) simp_all

lemma sortJs_cong:
  "\<forall>x \<in> set xs. \<forall>y \<in> set xs. cmp x y = cmp' x y \<Longrightarrow> sortJs cmp xs = sortJs cmp' xs"
proof (induction xs)
  case Nil
  then show ?case by (simp add: sortJs_def)
next
  case (Cons x xs)
  then have "sortJs cmp xs = sortJs cmp' xs" by simp
  moreover have "\<forall>b \<in> set (sortJs cmp' xs). cmp x b = cmp' x b"
    using Cons.prems by (simp add: set_sortJs)
  ultimately show ?case by (simp add: sortJs_Cons insertBy_cong)
qed

lemma sorted_byRecency:
  "sorted_wrt (\<lambda>a b. timestamp a \<ge> timestamp b) (sortJs byRecency xs)"
  by (rule sorted_wrt_sortJs [where P = "\<lambda>_. True"]) (auto simp: byRecency_def)

lemma sorted_byScore:
  assumes "\<forall>m \<in> set xs. 0 \<le> scoreOr0 m"
  shows "sorted_wrt (\<lambda>a b. scoreOr0 a \<ge> scoreOr0 b) (sortJs byScore xs)"
  using assms
  by (intro sorted_wrt_sortJs [where P = "\<lambda>m. 0 \<le> scoreOr0 m"])
     (auto simp: byScore_def split: if_splits)

lemma scoreOf_ramp:
  "scoreOf lower keywords memory = rampScore (hitsOf lower keywords memory) (length keywords)"
  by (simp add: scoreOf_def rampScore_def Let_def mult.commute min.commute)

lemma rampScore_range: "0 \<le> rampScore hits k \<and> rampScore hits k \<le> 1"
  by (simp add: rampScore_def)

lemma rampScore_zero: "rampScore 0 k = 0"
  by (simp add: rampScore_def)

lemma rampScore_pos: "0 < hits \<Longrightarrow> 0 < rampScore hits k"
  by (simp add: rampScore_def)


lemma startsWith_iff: "startsWith s w \<longleftrightarrow> (\<exists>post. s = w @ post)"
proof
  assume "startsWith s w"
  then have "s = w @ drop (length w) s"
    by (metis append_take_drop_id startsWith_def)
  then show "\<exists>post. s = w @ post" ..
next
  assume "\<exists>post. s = w @ post"
  then show "startsWith s w" by (auto simp: startsWith_def)
qed

text \<open>\<open>includes_s\<close> is the substring test.\<close>

lemma includes_s_iff: "includes_s s w \<longleftrightarrow> (\<exists>pre post. s = pre @ w @ post)"
proof (induction s)
  case Nil
  then show ?case by auto
next
  case (Cons c cs)
  show ?case
  proof
    assume "includes_s (c # cs) w"
    then consider "startsWith (c # cs) w" | "includes_s cs w" by auto
    then show "\<exists>pre post. c # cs = pre @ w @ post"
    proof cases
      case 1
      then obtain post where "c # cs = w @ post" by (auto simp: startsWith_iff)
      then have "c # cs = [] @ w @ post" by simp
      then show ?thesis by blast
    next
      case 2
      with Cons.IH obtain pre post where "cs = pre @ w @ post" by blast
      then have "c # cs = (c # pre) @ w @ post" by simp
      then show ?thesis by blast
    qed
  next
    assume "\<exists>pre post. c # cs = pre @ w @ post"
    then obtain pre post where eq: "c # cs = pre @ w @ post" by blast
    show "includes_s (c # cs) w"
    proof (cases pre)
      case Nil
      with eq have "startsWith (c # cs) w" by (auto simp: startsWith_iff)
      then show ?thesis by simp
    next
      case (Cons p pre')
      with eq have "cs = pre' @ w @ post" by simp
      with Cons.IH have "includes_s cs w" by blast
      then show ?thesis by simp
    qed
  qed
qed

lemma processedMemories_active:
  assumes "mode = PALACE" and "searchQueryOf transcript finalizedTranscript \<noteq> []"
    and "keywordsOf lower (searchQueryOf transcript finalizedTranscript) \<noteq> []"
  shows "processedMemories lower mode transcript finalizedTranscript savedMemories
           = sortJs byScore
               (map (\<lambda>m. m\<lparr> matchScore :=
                      Some (rampScore
                              (hitsOf lower (keywordsOf lower (searchQueryOf transcript finalizedTranscript)) m)
                              (length (keywordsOf lower (searchQueryOf transcript finalizedTranscript)))) \<rparr>)
                  savedMemories)"
  using assms by (simp add: processedMemories_def Let_def scoreOf_ramp)

lemma processedMemories_idle:
  assumes "mode = LIVE \<or> searchQueryOf transcript finalizedTranscript = []
           \<or> keywordsOf lower (searchQueryOf transcript finalizedTranscript) = []"
  shows "processedMemories lower mode transcript finalizedTranscript savedMemories
           = sortJs byRecency (map (\<lambda>m. m\<lparr> matchScore := Some 0 \<rparr>) savedMemories)"
  using assms by (auto simp: processedMemories_def Let_def)

text \<open>
  C5. For every memory and every active query (palace view, non-empty query) with a
  non-empty keyword set, the memory's match score equals
  \<open>min(1, hits / max(1, 0.5 * keywordCount))\<close>, where hits is the number of keywords
  that occur as a substring of the lower-cased stored transcript, a space and the
  sentiment label (the keywords are lower-cased with the query); every match score lies
  in [0, 1], and it is 0 when no keyword hits. The returned list holds exactly the saved
  memories with these scores.
\<close>

theorem match_score_formula:
  assumes "mode = PALACE" and "searchQueryOf transcript finalizedTranscript \<noteq> []"
    and "keywordsOf lower (searchQueryOf transcript finalizedTranscript) = keywords"
    and "keywords \<noteq> []"
  shows "mset (processedMemories lower mode transcript finalizedTranscript savedMemories)
           = mset (map (\<lambda>m. m\<lparr> matchScore :=
                          Some (min 1 (real (hitsOf lower keywords m)
                                         / max 1 (0.5 * real (length keywords)))) \<rparr>)
                     savedMemories)
         \<and> (\<forall>m. hitsOf lower keywords m
                  = length (filter (\<lambda>w. \<exists>pre post.
                               lower (transcriptSnapshot m @ js '' '' @ sentimentLabel (sentiment m))
                                 = pre @ w @ post) keywords))
         \<and> (\<forall>m \<in> set (processedMemories lower mode transcript finalizedTranscript savedMemories).
               \<exists>s. matchScore m = Some s \<and> 0 \<le> s \<and> s \<le> 1)
         \<and> (\<forall>m. hitsOf lower keywords m = 0 \<longrightarrow>
                 min 1 (real (hitsOf lower keywords m) / max 1 (0.5 * real (length keywords))) = 0)"
proof -
  let ?scored = "map (\<lambda>m. m\<lparr> matchScore :=
                          Some (min 1 (real (hitsOf lower keywords m)
                                         / max 1 (0.5 * real (length keywords)))) \<rparr>) savedMemories"
  have run: "processedMemories lower mode transcript finalizedTranscript savedMemories
               = sortJs byScore ?scored"
    using processedMemories_active [of mode transcript finalizedTranscript lower savedMemories] assms
    by (simp add: rampScore_def)
  have perm: "mset (processedMemories lower mode transcript finalizedTranscript savedMemories)
                = mset ?scored"
    by (simp only: run mset_sortJs)
  have hits: "hitsOf lower keywords m
                = length (filter (\<lambda>w. \<exists>pre post.
                             lower (transcriptSnapshot m @ js '' '' @ sentimentLabel (sentiment m))
                               = pre @ w @ post) keywords)" for m
  proof -
    have "includes_s (contentOf lower m) = (\<lambda>w. \<exists>pre post. contentOf lower m = pre @ w @ post)"
      by (rule ext) (rule includes_s_iff)
    then show ?thesis by (simp add: hitsOf_def contentOf_def)
  qed
  have range: "\<exists>s. matchScore m = Some s \<and> 0 \<le> s \<and> s \<le> 1"
    if "m \<in> set (processedMemories lower mode transcript finalizedTranscript savedMemories)" for m
  proof -
    from that have "m \<in> set ?scored" by (simp only: run set_sortJs)
    then show ?thesis by auto
  qed
  from perm hits range show ?thesis by simp
qed

lemma keywords_hello_big_blue_world:
  "keywordsOf asciiLower (js ''Hello big, blue world!'')
     = [js ''hello'', js ''big'', js ''blue'', js ''world'']"
  by (simp add: keywordsOf_def normalizeQuery_def asciiLower_def js_def punctuation_def
      hasChinese_def isWhitespace_def STOP_WORDS_def dedupe_def Let_def)

lemma scores_hello_big_blue_world:
  "map (\<lambda>m. (timestamp m, matchScore m))
     (processedMemories asciiLower PALACE [] (js ''Hello big, blue world!'') threeMemories)
   = [(1, Some 1), (2, Some (1/2)), (3, Some 0)]"
  by (simp add: processedMemories_def searchQueryOf_def keywords_hello_big_blue_world Let_def
        scoreOf_def sortJs_def byScore_def scoreOr0_def)
     (simp add: threeMemories_def memoryOf_def hitsOf_def contentOf_def asciiLower_def js_def
        sentimentLabel_def startsWith_def byScore_def scoreOr0_def)

theorem match_score_formula_witness:
  "searchQueryOf [] (js ''Hello big, blue world!'') \<noteq> []
   \<and> keywordsOf asciiLower (searchQueryOf [] (js ''Hello big, blue world!''))
       = [js ''hello'', js ''big'', js ''blue'', js ''world'']
   \<and> mset (processedMemories asciiLower PALACE [] (js ''Hello big, blue world!'') threeMemories)
       = mset (map (\<lambda>m. m\<lparr> matchScore :=
                      Some (min 1 (real (hitsOf asciiLower
                                           [js ''hello'', js ''big'', js ''blue'', js ''world''] m)
                                     / max 1 (0.5 * real (length
                                           [js ''hello'', js ''big'', js ''blue'', js ''world''])))) \<rparr>)
                 threeMemories)
   \<and> map (\<lambda>m. (timestamp m, matchScore m))
         (processedMemories asciiLower PALACE [] (js ''Hello big, blue world!'') threeMemories)
       = [(1, Some 1), (2, Some (1/2)), (3, Some 0)]"
proof -
  have q: "searchQueryOf [] (js ''Hello big, blue world!'') \<noteq> []"
    by (simp add: searchQueryOf_def js_def)
  have k: "keywordsOf asciiLower (searchQueryOf [] (js ''Hello big, blue world!''))
             = [js ''hello'', js ''big'', js ''blue'', js ''world'']"
    by (simp add: searchQueryOf_def keywords_hello_big_blue_world)
  have ne: "[js ''hello'', js ''big'', js ''blue'', js ''world''] \<noteq> []" by simp
  from match_score_formula [OF refl q k ne, of threeMemories]
  have "mset (processedMemories asciiLower PALACE [] (js ''Hello big, blue world!'') threeMemories)
       = mset (map (\<lambda>m. m\<lparr> matchScore :=
                      Some (min 1 (real (hitsOf asciiLower
                                           [js ''hello'', js ''big'', js ''blue'', js ''world''] m)
                                     / max 1 (0.5 * real (length
                                           [js ''hello'', js ''big'', js ''blue'', js ''world''])))) \<rparr>)
                 threeMemories)"
    by blast
  with q k scores_hello_big_blue_world show ?thesis by blast
qed

text \<open>The score comparator is consistent on memories with scores that are not negative.\<close>

lemma byScore_antisym: "byScore a b = - byScore b a"
  by (auto simp: byScore_def)

lemma byScore_trans:
  assumes "0 \<le> scoreOr0 a" "0 \<le> scoreOr0 b" "0 \<le> scoreOr0 c"
    and "byScore a b \<le> 0" "byScore b c \<le> 0"
  shows "byScore a c \<le> 0"
  using assms by (auto simp: byScore_def split: if_splits)

lemma keywordsOf_all_stop:
  assumes "\<forall>w \<in> set (candidateTokens lower searchQuery). w \<in> set STOP_WORDS"
  shows "keywordsOf lower searchQuery = []"
proof -
  define q where "q = normalizeQuery lower searchQuery"
  show ?thesis
  proof (cases "hasChinese q")
    case True
    from assms True have
      singles: "\<forall>c \<in> set q. \<not> isWhitespace c \<longrightarrow> [c] \<in> set STOP_WORDS"
      and bigrams: "\<forall>i < length q - 1. take 2 (drop i q) \<in> set STOP_WORDS"
      and parts: "\<forall>w \<in> set (splitWhitespace q). length w > 0 \<longrightarrow> w \<in> set STOP_WORDS"
      by (auto simp: candidateTokens_def q_def [symmetric] Let_def)
    have s0: "filter (\<lambda>c. \<not> isWhitespace c \<and> [c] \<notin> set STOP_WORDS) q = []"
      using singles by (auto simp: filter_empty_conv)
    have b0: "filter (\<lambda>b. b \<notin> set STOP_WORDS) (map (\<lambda>i. take 2 (drop i q)) [0 ..< length q - 1]) = []"
      using bigrams by (auto simp: filter_empty_conv)
    have p0: "filter (\<lambda>w. length w > 0 \<and> w \<notin> set STOP_WORDS) (splitWhitespace q) = []"
      using parts by (auto simp: filter_empty_conv)
    from True s0 b0 p0 show ?thesis
      by (simp add: keywordsOf_def q_def [symmetric] Let_def dedupe_def)
  next
    case False
    from assms False have
      parts: "\<forall>w \<in> set (splitWhitespace q). length w > 0 \<longrightarrow> w \<in> set STOP_WORDS"
      by (auto simp: candidateTokens_def q_def [symmetric] Let_def)
    have p0: "filter (\<lambda>w. length w > 0 \<and> w \<notin> set STOP_WORDS) (splitWhitespace q) = []"
      using parts by (auto simp: filter_empty_conv)
    from False p0 show ?thesis
      by (simp add: keywordsOf_def q_def [symmetric] Let_def dedupe_def)
  qed
qed

text \<open>
  C6, as the code has it. For every memory set and query: under an active search the
  returned list holds the scored memories in descending order of match score (so whenever
  some memory has a positive score); when no memory has a positive score it is the list in
  descending order of timestamp; and the live view, an empty query, or a query whose
  keyword set is empty resets every score to 0 and yields the pure descending-recency
  order. The keyword set is empty when every candidate token of the query is a stop word;
  for a query without CJK characters, when every word of it is a stop word.
\<close>

theorem memory_ordering:
  assumes "searchQueryOf transcript finalizedTranscript = query"
    and "keywordsOf lower query = keywords"
    and "processedMemories lower mode transcript finalizedTranscript savedMemories = result"
  shows "(mode = PALACE \<and> query \<noteq> [] \<and> keywords \<noteq> [] \<longrightarrow>
            sorted_wrt (\<lambda>a b. scoreOr0 a \<ge> scoreOr0 b) result
            \<and> mset result
                = mset (map (\<lambda>m. m\<lparr> matchScore := Some (scoreOf lower keywords m) \<rparr>) savedMemories))
       \<and> (mode = PALACE \<and> query \<noteq> [] \<and> keywords \<noteq> []
            \<and> (\<forall>m \<in> set savedMemories. hitsOf lower keywords m = 0) \<longrightarrow>
            result = sortJs byRecency (map (\<lambda>m. m\<lparr> matchScore := Some 0 \<rparr>) savedMemories))
       \<and> (mode = LIVE \<or> query = [] \<or> keywords = [] \<longrightarrow>
            result = sortJs byRecency (map (\<lambda>m. m\<lparr> matchScore := Some 0 \<rparr>) savedMemories))
       \<and> sorted_wrt (\<lambda>a b. timestamp a \<ge> timestamp b)
            (sortJs byRecency (map (\<lambda>m. m\<lparr> matchScore := Some 0 \<rparr>) savedMemories))
       \<and> (\<forall>m \<in> set (sortJs byRecency (map (\<lambda>m. m\<lparr> matchScore := Some 0 \<rparr>) savedMemories)).
             matchScore m = Some 0)
       \<and> mset (sortJs byRecency (map (\<lambda>m. m\<lparr> matchScore := Some 0 \<rparr>) savedMemories))
           = mset (map (\<lambda>m. m\<lparr> matchScore := Some 0 \<rparr>) savedMemories)
       \<and> ((\<forall>w \<in> set (candidateTokens lower query). w \<in> set STOP_WORDS) \<longrightarrow> keywords = [])
       \<and> (\<not> hasChinese (normalizeQuery lower query)
            \<and> (\<forall>w \<in> set (splitWhitespace (normalizeQuery lower query)).
                  w = [] \<or> w \<in> set STOP_WORDS) \<longrightarrow> keywords = [])"
proof -
  let ?scored = "map (\<lambda>m. m\<lparr> matchScore := Some (scoreOf lower keywords m) \<rparr>) savedMemories"
  let ?reset = "map (\<lambda>m. m\<lparr> matchScore := Some 0 \<rparr>) savedMemories"
  have active: "result = sortJs byScore ?scored"
    if "mode = PALACE" "query \<noteq> []" "keywords \<noteq> []"
    using that assms by (auto simp: processedMemories_def Let_def)
  have nonneg: "\<forall>m \<in> set ?scored. 0 \<le> scoreOr0 m"
    using rampScore_range by (auto simp: scoreOr0_def scoreOf_ramp)
  have a: "sorted_wrt (\<lambda>a b. scoreOr0 a \<ge> scoreOr0 b) result \<and> mset result = mset ?scored"
    if "mode = PALACE" "query \<noteq> []" "keywords \<noteq> []"
    using active [OF that] sorted_byScore [OF nonneg] by (simp add: mset_sortJs)
  have b: "result = sortJs byRecency ?reset"
    if "mode = PALACE" "query \<noteq> []" "keywords \<noteq> []"
      and none: "\<forall>m \<in> set savedMemories. hitsOf lower keywords m = 0"
  proof -
    from none have eq: "?scored = ?reset" by (simp add: scoreOf_def)
    have "\<forall>x \<in> set ?reset. \<forall>y \<in> set ?reset. byScore x y = byRecency x y"
      by (auto simp: byScore_def byRecency_def scoreOr0_def)
    then have "sortJs byScore ?reset = sortJs byRecency ?reset" by (rule sortJs_cong)
    with active [OF that(1-3)] eq show ?thesis by simp
  qed
  have c: "result = sortJs byRecency ?reset" if "mode = LIVE \<or> query = [] \<or> keywords = []"
    using that assms processedMemories_idle [of mode transcript finalizedTranscript lower savedMemories]
    by auto
  have d: "sorted_wrt (\<lambda>a b. timestamp a \<ge> timestamp b) (sortJs byRecency ?reset)
           \<and> (\<forall>m \<in> set (sortJs byRecency ?reset). matchScore m = Some 0)
           \<and> mset (sortJs byRecency ?reset) = mset ?reset"
    by (auto simp: sorted_byRecency set_sortJs mset_sortJs)
  have e: "keywords = []" if "\<forall>w \<in> set (candidateTokens lower query). w \<in> set STOP_WORDS"
    using keywordsOf_all_stop [OF that] assms(2) by simp
  have f: "keywords = []"
    if "\<not> hasChinese (normalizeQuery lower query)"
      and "\<forall>w \<in> set (splitWhitespace (normalizeQuery lower query)). w = [] \<or> w \<in> set STOP_WORDS"
  proof -
    from that have "\<forall>w \<in> set (candidateTokens lower query). w \<in> set STOP_WORDS"
      by (auto simp: candidateTokens_def Let_def)
    then show ?thesis by (rule e)
  qed
  from a b c d e f show ?thesis by blast
qed

lemma keywords_the_of: "keywordsOf asciiLower (js ''The, of!'') = []"
  by (simp add: keywordsOf_def normalizeQuery_def asciiLower_def js_def punctuation_def
      hasChinese_def isWhitespace_def STOP_WORDS_def dedupe_def Let_def)

lemma recency_of_three:
  "sortJs byRecency (map (\<lambda>m. m\<lparr> matchScore := Some 0 \<rparr>) (rev threeMemories)) = threeMemories"
  by (simp add: threeMemories_def memoryOf_def sortJs_def byRecency_def)

theorem memory_ordering_witness:
  "searchQueryOf (js ''The, of!'') (js ''Hello'') = js ''The, of!''
   \<and> keywordsOf asciiLower (js ''The, of!'') = []
   \<and> processedMemories asciiLower PALACE (js ''The, of!'') (js ''Hello'') (rev threeMemories)
       = threeMemories
   \<and> map timestamp threeMemories = [3, 2, 1]
   \<and> map matchScore threeMemories = [Some 0, Some 0, Some 0]"
proof -
  have q: "searchQueryOf (js ''The, of!'') (js ''Hello'') = js ''The, of!''"
    by (simp add: searchQueryOf_def js_def)
  note inst = memory_ordering [OF q keywords_the_of refl, of PALACE "rev threeMemories"]
  then have "processedMemories asciiLower PALACE (js ''The, of!'') (js ''Hello'') (rev threeMemories)
       = sortJs byRecency (map (\<lambda>m. m\<lparr> matchScore := Some 0 \<rparr>) (rev threeMemories))"
    by blast
  with q keywords_the_of recency_of_three show ?thesis
    by (simp add: threeMemories_def memoryOf_def)
qed

text \<open>
  The claim as the specification words it fails for a query with CJK characters: both
  words of the query below are stop words, yet its two bigrams (each a stop character and
  the space) are keywords, the search stays active, and a memory whose transcript holds
  one of them scores 1.
\<close>

theorem stop_word_pair_still_searches:
  "splitWhitespace (normalizeQuery asciiLower [30340, 32, 20102]) = [[30340], [20102]]
   \<and> [30340] \<in> set STOP_WORDS \<and> [20102] \<in> set STOP_WORDS
   \<and> keywordsOf asciiLower [30340, 32, 20102] = [[30340, 32], [32, 20102]]
   \<and> map matchScore
         (processedMemories asciiLower PALACE [30340, 32, 20102] []
            [memoryOf 1 [25105, 30340, 32, 29483]])
       = [Some 1]"
proof -
  have words: "splitWhitespace (normalizeQuery asciiLower [30340, 32, 20102]) = [[30340], [20102]]"
    by (simp add: normalizeQuery_def asciiLower_def punctuation_def isWhitespace_def)
  have stops: "[30340] \<in> set STOP_WORDS \<and> [20102] \<in> set STOP_WORDS"
    by (simp add: STOP_WORDS_def)
  have kws: "keywordsOf asciiLower [30340, 32, 20102] = [[30340, 32], [32, 20102]]"
    by (simp add: keywordsOf_def normalizeQuery_def asciiLower_def js_def punctuation_def
        hasChinese_def isWhitespace_def STOP_WORDS_def dedupe_def Let_def upt_rec)
  have score: "map matchScore
         (processedMemories asciiLower PALACE [30340, 32, 20102] []
            [memoryOf 1 [25105, 30340, 32, 29483]])
       = [Some 1]"
    by (simp add: processedMemories_def searchQueryOf_def kws Let_def scoreOf_def
          sortJs_def byScore_def scoreOr0_def)
       (simp add: memoryOf_def hitsOf_def contentOf_def asciiLower_def js_def
          sentimentLabel_def startsWith_def)
  from words stops kws score show ?thesis by blast
qed

section \<open>Verified properties of the ambient cloud and of recording\<close>

lemma useFrameScene_disruption:
  "uDisruption (useFrameScene st True elapsed pointSize sent hand readingMode)
     = uDisruption st
       + (disruptionTargetOf sent hand readingMode - uDisruption st)
         * disruptionLerpSpeed (disruptionTargetOf sent hand readingMode) (uDisruption st)"
  by (simp add: useFrameScene_def Let_def lerp_def algebra_simps)

text \<open>
  C7, as the code has it. On every frame the disruption weight moves towards its target
  by a fraction that depends on the direction: 0.03 of the gap when the target is above the
  current value and 0.15 when it is at or below it. The rising rate is the smaller one:
  scattering engages more slowly than it relaxes.
\<close>

theorem disruption_asymmetry:
  assumes "rising > current" and "falling \<le> current'"
  shows "disruptionLerpSpeed rising current = 0.03
         \<and> disruptionLerpSpeed falling current' = 0.15
         \<and> disruptionLerpSpeed rising current < disruptionLerpSpeed falling current'
         \<and> (\<forall>st elapsed pointSize sent hand readingMode.
               uDisruption (useFrameScene st True elapsed pointSize sent hand readingMode)
                 = uDisruption st
                   + (disruptionTargetOf sent hand readingMode - uDisruption st)
                     * disruptionLerpSpeed (disruptionTargetOf sent hand readingMode) (uDisruption st))"
  using assms by (simp add: disruptionLerpSpeed_def useFrameScene_disruption)

theorem disruption_asymmetry_witness:
  "(5/2 :: real) > 0 \<and> (0 :: real) \<le> 5/2
   \<and> disruptionLerpSpeed (5/2) 0 = 3/100 \<and> disruptionLerpSpeed 0 (5/2) = 15/100
   \<and> disruptionLerpSpeed (5/2) 0 < disruptionLerpSpeed 0 (5/2)"
proof -
  have up: "(5/2 :: real) > 0" and down: "(0 :: real) \<le> 5/2" by simp_all
  from disruption_asymmetry [OF up down] up down show ?thesis by simp
qed

text \<open>
  The claim as the specification words it fails: the rate used towards a target above the
  current value is not the larger one. From a calm cloud an open hand (target 2.5) raises
  the weight by 3 percent of the gap in one frame, and from 2.5 a lost hand (target 0)
  lowers it by 15 percent.
\<close>

theorem disruption_engages_slower:
  "(5/2 :: real) > 0
   \<and> \<not> disruptionLerpSpeed (5/2) 0 > disruptionLerpSpeed 0 (5/2)
   \<and> uDisruption (useFrameScene calmScene True 0 0.3 NEUTRAL (Some openHand) False) = 3/40
   \<and> uDisruption (useFrameScene (calmScene\<lparr> uDisruption := 5/2 \<rparr>) True 0 0.3 NEUTRAL None False)
       = 17/8"
  by (simp add: disruptionLerpSpeed_def useFrameScene_def disruptionTargetOf_def activeHand_def
      openHand_def detectedHand_def calmScene_def lerp_def Let_def)

subsection \<open>Stopping a recording\<close>

text \<open>
  C8 on \<open>handleToggleRecording\<close>: a session is started with the microphone granted (one
  audio track) and then stopped. The recorder is inactive, the timer is cleared and both
  refs are null, but the track of the stream acquired for the session is still live:
  nothing in the stop branch calls \<open>track.stop()\<close>.
\<close>

theorem toggle_stop_leaves_track_live:
  "isRecording (handleToggleRecording initialRecording (Some 1))
   \<and> audioStreams (handleToggleRecording initialRecording (Some 1)) = [[TrackLive]]
   \<and> \<not> isRecording (handleToggleRecording (handleToggleRecording initialRecording (Some 1)) None)
   \<and> mediaRecorderRef (handleToggleRecording (handleToggleRecording initialRecording (Some 1)) None) = None
   \<and> sentimentIntervalRef (handleToggleRecording (handleToggleRecording initialRecording (Some 1)) None) = None
   \<and> recorders (handleToggleRecording (handleToggleRecording initialRecording (Some 1)) None) = [Inactive]
   \<and> activeTimers (handleToggleRecording (handleToggleRecording initialRecording (Some 1)) None) = []
   \<and> audioStreams (handleToggleRecording (handleToggleRecording initialRecording (Some 1)) None)
       = [[TrackLive]]
   \<and> \<not> noLiveTrack
          (audioStreams (handleToggleRecording (handleToggleRecording initialRecording (Some 1)) None))"
  by (simp add: handleToggleRecording_def initialRecording_def noLiveTrack_def Let_def)

text \<open>
  The sibling path, \<open>AudioStreamer.stopRecording\<close>, does release the capture: after a
  start from an idle streamer, one stop ends every track and nulls the three handles, and a
  second stop changes nothing.
\<close>

lemma noLiveTrack_append:
  "noLiveTrack (streams @ [tracks]) \<longleftrightarrow> noLiveTrack streams \<and> list_all (\<lambda>t. t = TrackEnded) tracks"
  by (simp add: noLiveTrack_def)

lemma streamer_stop_releases:
  assumes "inputStream s = None" and "noLiveTrack (streamerStreams s)"
  shows "noLiveTrack (streamerStreams (stopRecording (startRecording s granted)))
         \<and> inputStream (stopRecording (startRecording s granted)) = None
         \<and> processorConnected (stopRecording (startRecording s granted)) = None
         \<and> audioContextOpen (stopRecording (startRecording s granted)) = None
         \<and> stopRecording (stopRecording (startRecording s granted))
             = stopRecording (startRecording s granted)"
proof (cases granted)
  case None
  with assms show ?thesis
    by (simp add: startRecording_def stopRecording_def Let_def split: option.splits)
next
  case (Some tracks)
  have ended: "list_all (\<lambda>t. t = TrackEnded) (map (\<lambda>track. TrackEnded) (replicate tracks TrackLive))"
    by (simp add: list_all_iff)
  from Some assms ended show ?thesis
    by (simp add: startRecording_def stopRecording_def Let_def noLiveTrack_append
        split: option.splits)
qed

end
